theory Spec2Isabelle
  imports
    Main
    "HOL-Library.Sublist"
    "HOL-Library.Char_ord"
    "HOL-Library.List_Lexorder"
    "HOL-Library.AList"
begin

section \<open>Bytes, errors and decimal numbers\<close>

text \<open>
  Go's \<open>[]byte\<close> and \<open>string\<close> are both byte sequences: \<open>string\<close> here.  A nil and an
  empty slice have the same length and the same \<open>string(...)\<close>; the one place where the
  source tells them apart (\<open>snapshot != nil\<close>) is modelled with \<open>option\<close>.

  A Go \<open>error\<close> is a message.  The only thing the source ever asks of an error besides its
  message is \<open>os.IsNotExist\<close>, hence two constructors.  A function returning
  \<open>(T, error)\<close> returns \<open>error + T\<close>, and one returning only \<open>error\<close> returns
  \<open>error option\<close> (\<open>None\<close> is \<open>nil\<close>).

  Go's \<open>int\<close> is modelled by \<open>int\<close>.  Identifiers read from the disk are below
  \<open>10\<^sup>6\<close> and grow by one for each recorded response, so the wrap-around of the 64-bit
  type is out of reach of every computation below.
\<close>

type_synonym bytes = string

datatype error =
    NotExist string
  | Failure string

fun os_IsNotExist :: "error \<Rightarrow> bool" where
  "os_IsNotExist (NotExist m) = True"
| "os_IsNotExist (Failure m) = False"

fun Error :: "error \<Rightarrow> string" where
  "Error (NotExist m) = m"
| "Error (Failure m) = m"

definition isdigit :: "char \<Rightarrow> bool" where
  "isdigit c \<longleftrightarrow> CHR ''0'' \<le> c \<and> c \<le> CHR ''9''"

definition digit_val :: "char \<Rightarrow> int" where
  "digit_val c = int (of_char c) - 48"

definition digit_char :: "nat \<Rightarrow> char" where
  "digit_char n = ''0123456789'' ! (n mod 10)"

fun digits :: "nat \<Rightarrow> string" where
  "digits n = (if n < 10 then [digit_char n] else digits (n div 10) @ [digit_char (n mod 10)])"

declare digits.simps [simp del]

text \<open>\<open>%d\<close> and \<open>%06d\<close> of \<open>fmt.Sprintf\<close>; the width of \<open>%06d\<close> counts the sign.\<close>

definition Sprintf_d :: "int \<Rightarrow> string" where
  "Sprintf_d n = (if n < 0 then ''-'' @ digits (nat (- n)) else digits (nat n))"

definition zero_pad :: "nat \<Rightarrow> string \<Rightarrow> string" where
  "zero_pad w s = replicate (w - length s) (CHR ''0'') @ s"

definition Sprintf_06d :: "int \<Rightarrow> string" where
  "Sprintf_06d n =
     (if n < 0 then ''-'' @ zero_pad 5 (digits (nat (- n))) else zero_pad 6 (digits (nat n)))"

text \<open>
  \<open>strconv.Atoi\<close>: an optional sign, then one or more decimal digits, and the value must
  fit 64 bits.
\<close>

definition decimal :: "string \<Rightarrow> int" where
  "decimal ds = foldl (\<lambda>acc c. acc * 10 + digit_val c) 0 ds"

definition Atoi :: "string \<Rightarrow> error + int" where
  "Atoi s =
     (let neg = (s \<noteq> [] \<and> hd s = CHR ''-'');
          ds = (if s \<noteq> [] \<and> (hd s = CHR ''-'' \<or> hd s = CHR ''+'') then tl s else s)
      in if ds = [] \<or> \<not> list_all isdigit ds
         then Inl (Failure (''strconv.Atoi: parsing '' @ s @ '': invalid syntax''))
         else let v = (if neg then - decimal ds else decimal ds)
              in if v < - (2 ^ 63) \<or> 2 ^ 63 - 1 < v
                 then Inl (Failure (''strconv.Atoi: parsing '' @ s @ '': value out of range''))
                 else Inr v)"

section \<open>The directory behind \<open>Recorder.RootPath\<close>\<close>

text \<open>
  The recorder keeps no state of its own: its state is the directory \<open>RootPath\<close>.  The
  directory is a list of entries, each a name with the files below it; a path is an entry
  name and a file name.  Every call of the operating system the recorder makes can fail, so
  the directory carries, for each call, the paths at which it fails for a reason of the
  environment (permissions, a full disk, a file where a directory is expected).  A failing
  write leaves the directory as it was.

  \<open>ioutil.ReadDir\<close> returns the entries sorted by file name, which is the byte-wise order
  of \<open>string\<close>.
\<close>

record filesystem =
  entries :: "(string \<times> (string \<times> bytes) list) list"
  readdir_fails :: bool
  read_fails :: "string \<Rightarrow> string \<Rightarrow> bool"
  mkdir_fails :: "string \<Rightarrow> bool"
  write_fails :: "string \<Rightarrow> string \<Rightarrow> bool"

definition ioutil_ReadDir :: "filesystem \<Rightarrow> error + string list" where
  "ioutil_ReadDir fs =
     (if readdir_fails fs then Inl (Failure ''readdir'')
      else Inr (sort (remdups (map fst (entries fs)))))"

definition ioutil_ReadFile :: "filesystem \<Rightarrow> string \<Rightarrow> string \<Rightarrow> error + bytes" where
  "ioutil_ReadFile fs dir filename =
     (if read_fails fs dir filename then Inl (Failure ''read'')
      else case map_of (entries fs) dir of
             None \<Rightarrow> Inl (NotExist ''no such file or directory'')
           | Some files \<Rightarrow>
               (case map_of files filename of
                  None \<Rightarrow> Inl (NotExist ''no such file or directory'')
                | Some content \<Rightarrow> Inr content))"

definition os_MkdirAll :: "string \<Rightarrow> filesystem \<Rightarrow> error option \<times> filesystem" where
  "os_MkdirAll dir fs =
     (if mkdir_fails fs dir then (Some (Failure ''mkdir''), fs)
      else case map_of (entries fs) dir of
             Some files \<Rightarrow> (None, fs)
           | None \<Rightarrow> (None, fs\<lparr>entries := entries fs @ [(dir, [])]\<rparr>))"

definition ioutil_WriteFile ::
  "string \<Rightarrow> string \<Rightarrow> bytes \<Rightarrow> filesystem \<Rightarrow> error option \<times> filesystem" where
  "ioutil_WriteFile dir filename content fs =
     (if write_fails fs dir filename then (Some (Failure ''write''), fs)
      else case map_of (entries fs) dir of
             None \<Rightarrow> (Some (NotExist ''no such file or directory''), fs)
           | Some files \<Rightarrow>
               (None, fs\<lparr>entries :=
                  AList.update dir (AList.update filename content files) (entries fs)\<rparr>))"

section \<open>Package recorder\<close>

definition FormatRequestID :: "int \<Rightarrow> string" where
  "FormatRequestID requestID = Sprintf_06d requestID"

definition requestPath :: "int \<Rightarrow> string" where
  "requestPath requestID = ''request-'' @ FormatRequestID requestID"

definition saveFile ::
  "int \<Rightarrow> string \<Rightarrow> bytes \<Rightarrow> filesystem \<Rightarrow> error option \<times> filesystem" where
  "saveFile requestID filename content fs =
     (let dir = requestPath requestID
      in case os_MkdirAll dir fs of
           (Some err, fs') \<Rightarrow> (Some err, fs')
         | (None, fs') \<Rightarrow> ioutil_WriteFile dir filename content fs')"

definition loadFile :: "filesystem \<Rightarrow> int \<Rightarrow> string \<Rightarrow> error + bytes" where
  "loadFile fs requestID filename = ioutil_ReadFile fs (requestPath requestID) filename"

definition SaveRequest :: "int \<Rightarrow> bytes \<Rightarrow> filesystem \<Rightarrow> error option \<times> filesystem" where
  "SaveRequest requestID content fs = saveFile requestID ''request.txt'' content fs"

definition SaveResponse :: "int \<Rightarrow> bytes \<Rightarrow> filesystem \<Rightarrow> error option \<times> filesystem" where
  "SaveResponse requestID content fs = saveFile requestID ''response.txt'' content fs"

definition SaveSnapshot :: "int \<Rightarrow> bytes \<Rightarrow> filesystem \<Rightarrow> error option \<times> filesystem" where
  "SaveSnapshot requestID content fs = saveFile requestID ''snapshot.txt'' content fs"

definition GetRequest :: "filesystem \<Rightarrow> int \<Rightarrow> error + bytes" where
  "GetRequest fs requestID = loadFile fs requestID ''request.txt''"

definition GetResponse :: "filesystem \<Rightarrow> int \<Rightarrow> error + bytes" where
  "GetResponse fs requestID = loadFile fs requestID ''response.txt''"

text \<open>\<open>Inr None\<close> is the pair \<open>(nil, nil)\<close>: no snapshot file, and no error.\<close>

definition MaybeGetSnapshot :: "filesystem \<Rightarrow> int \<Rightarrow> error + bytes option" where
  "MaybeGetSnapshot fs requestID =
     (case loadFile fs requestID ''snapshot.txt'' of
        Inl err \<Rightarrow> if os_IsNotExist err then Inr None else Inl err
      | Inr snapshot \<Rightarrow> Inr (Some snapshot))"

text \<open>
  The regular expression \<open>request-(\d{6})\<close> is not anchored: \<open>FindStringSubmatch\<close>
  returns the leftmost place of the name where it matches, as the whole match followed by
  the group, and the empty list when there is none.
\<close>

definition requestDirRegex_at :: "string \<Rightarrow> string list" where
  "requestDirRegex_at s =
     (if take 8 s = ''request-'' \<and> length (take 6 (drop 8 s)) = 6
         \<and> list_all isdigit (take 6 (drop 8 s))
      then [take 14 s, take 6 (drop 8 s)] else [])"

fun FindStringSubmatch :: "string \<Rightarrow> string list" where
  "FindStringSubmatch [] = []"
| "FindStringSubmatch (c # cs) =
     (if requestDirRegex_at (c # cs) \<noteq> [] then requestDirRegex_at (c # cs)
      else FindStringSubmatch cs)"

fun GetAllRequestIDs_loop :: "string list \<Rightarrow> int list \<Rightarrow> error + int list" where
  "GetAllRequestIDs_loop [] requestIDs = Inr requestIDs"
| "GetAllRequestIDs_loop (name # requestDirs) requestIDs =
     (let matches = FindStringSubmatch name
      in if length matches = 0
         then Inl (Failure (''invalid request directory name '' @ [CHR 0x22] @ name @ [CHR 0x22]))
         else case Atoi (matches ! 1) of
                Inl err \<Rightarrow> Inl err
              | Inr id' \<Rightarrow>
                  GetAllRequestIDs_loop requestDirs
                    (if id' \<noteq> 0 then requestIDs @ [id'] else requestIDs))"

definition GetAllRequestIDs :: "filesystem \<Rightarrow> error + int list" where
  "GetAllRequestIDs fs =
     (case ioutil_ReadDir fs of
        Inl err \<Rightarrow> Inl err
      | Inr requestDirs \<Rightarrow>
          if length requestDirs = 0 then Inr []
          else GetAllRequestIDs_loop requestDirs [])"

definition NextRequestID :: "filesystem \<Rightarrow> error + int" where
  "NextRequestID fs =
     (case GetAllRequestIDs fs of
        Inl err \<Rightarrow> Inl err
      | Inr requestIDs \<Rightarrow>
          if length requestIDs = 0 then Inr 0
          else Inr (requestIDs ! (length requestIDs - 1) + 1))"




section \<open>Package proxy\<close>

text \<open>
  \<open>OperationType\<close> is a Go string type with three named constants.  The decoded
  \<open>Variables\<close> are opaque to the program.  \<open>RequestInfo\<close> has an operation type and an
  operation name of its own; they are \<open>InfoOperationType\<close> and \<open>InfoOperationName\<close> here,
  since a field name can belong to one record only.
\<close>

typedecl json_value

type_synonym OperationType = string

definition OperationTypeUnknown :: OperationType where
  "OperationTypeUnknown = ''unknown''"

definition OperationTypeQuery :: OperationType where
  "OperationTypeQuery = ''query''"

definition OperationTypeMutation :: OperationType where
  "OperationTypeMutation = ''mutation''"

record GraphQLRequest =
  OperationName :: string
  Variables :: "(string \<times> json_value) list"
  Query :: string
  OperationType :: OperationType

record RequestInfo =
  RequestID :: int
  InfoOperationType :: OperationType
  InfoOperationName :: string
  WillSnapshot :: bool
  ShapshotComplete :: bool

record URL =
  Scheme :: string
  URLHost :: string
  Path :: string

text \<open>
  An \<open>http.Request\<close> as far as \<open>ProxyDirector\<close> touches it.  The body is the bytes that
  \<open>ioutil.ReadAll\<close> gets from it (the read error is dropped by the source), \<open>None\<close> when
  \<open>req.Body\<close> is nil.  The handler's map is keyed by the pointer to the request, a \<open>nat\<close>.
\<close>

record Request =
  Host :: string
  RequestURL :: URL
  RequestBody :: "bytes option"

text \<open>
  An \<open>http.Response\<close> as far as \<open>ProxyResponseHandler\<close> touches it: the pointer
  \<open>resp.Request\<close>, the path \<open>resp.Request.URL.Path\<close>, the header
  \<open>content-encoding\<close>, and the body, a stream that holds bytes until it is read and closed.
  In \<open>readAndResetResponseContent\<close> the error of \<open>ioutil.ReadAll\<close> is overwritten by the
  result of \<open>Close\<close>, so only the bytes read and the outcome of \<open>Close\<close> matter.
\<close>

datatype body = Reader bytes | Consumed

record Response =
  RequestPtr :: nat
  RequestURLPath :: string
  ContentEncoding :: string
  Body :: body
  CloseFails :: bool

text \<open>
  The collaborators the program is given or links against: the \<open>RequestSelector\<close>, the
  \<open>Snapshotter\<close>, and the library functions \<open>json.Unmarshal\<close> (into a
  \<open>GraphQLRequest\<close>, whose \<open>OperationType\<close> has no JSON name and stays empty),
  \<open>gzip.NewReader\<close> followed by \<open>ioutil.ReadAll\<close>, and \<open>url.Parse\<close>.  Every
  theorem holds for all of them.  A collaborator is a function of its argument: no
  statement below depends on two calls of the snapshotter with the same request giving
  the same bytes.
\<close>

record collaborators =
  ShouldRecordRequest :: "GraphQLRequest \<Rightarrow> bool"
  ShouldSnapshotRequest :: "GraphQLRequest \<Rightarrow> bool"
  Snapshotter_TakeSnapshot :: "GraphQLRequest \<Rightarrow> error + bytes"
  SnapshotInfo :: string
  json_Unmarshal :: "bytes \<Rightarrow> error + GraphQLRequest"
  gzip_ReadAll :: "bytes \<Rightarrow> error + bytes"
  url_Parse :: "string \<Rightarrow> error + URL"

text \<open>
  The state of the process: the fields of the \<open>Handler\<close> that change or are read
  (\<open>host\<close>, \<open>proxyOrigin\<close>, \<open>nextRequestID\<close>, \<open>requestContent\<close>), and the objects it
  shares with the server and the tool: what the \<open>Reporter\<close> has been told, what has been
  sent on \<open>requestInfoChan\<close>, and the recorder's directory.  The mutex makes the two
  critical sections of the handler atomic; the model runs one callback at a time.  A send
  on the channel adds to the list of what was sent; that it waits for the tool to receive
  is not modelled.
\<close>

record state =
  host :: string
  proxyOrigin :: URL
  nextRequestID :: int
  requestContent :: "nat \<rightharpoonup> bytes"
  reports :: "(string \<times> string) list"
  requestInfoChan :: "RequestInfo list"
  disk :: filesystem

definition Report :: "string \<Rightarrow> string \<Rightarrow> state \<Rightarrow> state" where
  "Report label message s = s\<lparr>reports := reports s @ [(label, message)]\<rparr>"

definition Handler_log :: "string \<Rightarrow> string \<Rightarrow> state \<Rightarrow> state" where
  "Handler_log label message s = Report label message s"

definition send :: "RequestInfo \<Rightarrow> state \<Rightarrow> state" where
  "send info s = s\<lparr>requestInfoChan := requestInfoChan s @ [info]\<rparr>"

definition NewHandler :: "collaborators \<Rightarrow> string \<Rightarrow> string \<Rightarrow> filesystem \<Rightarrow> error + state" where
  "NewHandler c host' endpoint fs =
     (case url_Parse c endpoint of
        Inl err \<Rightarrow> Inl err
      | Inr origin \<Rightarrow>
          (case NextRequestID fs of
             Inl err \<Rightarrow> Inl err
           | Inr n \<Rightarrow>
               (let handler = \<lparr>host = host', proxyOrigin = origin, nextRequestID = n,
                                requestContent = Map.empty, reports = [],
                                requestInfoChan = [], disk = fs\<rparr>
                in Inr (if n \<noteq> 1
                        then Handler_log ''warning''
                               (''existing requests in output dir, next request id: '' @ Sprintf_d n)
                               handler
                        else handler))))"

definition ProxyDirector :: "nat \<Rightarrow> Request \<Rightarrow> state \<Rightarrow> Request \<times> state" where
  "ProxyDirector p req s =
     (let req1 = req\<lparr>Host := host s,
                     RequestURL := (RequestURL req)\<lparr>Scheme := Scheme (proxyOrigin s),
                                                     URLHost := URLHost (proxyOrigin s)\<rparr>\<rparr>;
          content = (case RequestBody req of None \<Rightarrow> [] | Some b \<Rightarrow> b)
      in (req1\<lparr>RequestBody := (case RequestBody req of None \<Rightarrow> None | Some b \<Rightarrow> Some content)\<rparr>,
          s\<lparr>requestContent := (requestContent s)(p \<mapsto> content)\<rparr>))"

definition ParseRequest :: "collaborators \<Rightarrow> bytes \<Rightarrow> error + GraphQLRequest" where
  "ParseRequest c content =
     (case json_Unmarshal c content of
        Inl err \<Rightarrow> Inl err
      | Inr graphQLRequest \<Rightarrow>
          Inr (graphQLRequest\<lparr>OperationType :=
                 (if prefix ''query'' (Query graphQLRequest) then OperationTypeQuery
                  else if prefix ''mutation'' (Query graphQLRequest) then OperationTypeMutation
                  else OperationTypeUnknown)\<rparr>))"

definition TakeSnapshot ::
  "collaborators \<Rightarrow> int \<Rightarrow> GraphQLRequest \<Rightarrow> state \<Rightarrow> error option \<times> state" where
  "TakeSnapshot c requestID graphQLRequest s =
     (let s1 = Report '''' (''taking a snapshot, '' @ SnapshotInfo c @ ''...'') s
      in case Snapshotter_TakeSnapshot c graphQLRequest of
           Inl err \<Rightarrow> (Some err, Report ''error'' (Error err) s1)
         | Inr snapshot \<Rightarrow>
             (let s2 = Report '''' ''...done'' s1
              in (None, s2\<lparr>disk := snd (SaveSnapshot requestID snapshot (disk s2))\<rparr>)))"

definition readAndResetResponseContent ::
  "collaborators \<Rightarrow> Response \<Rightarrow> (error + bytes) \<times> Response" where
  "readAndResetResponseContent c resp =
     (let original = (case Body resp of Reader b \<Rightarrow> b | Consumed \<Rightarrow> []);
          resp1 = resp\<lparr>Body := Consumed\<rparr>
      in if CloseFails resp then (Inl (Failure ''close''), resp1)
         else if ContentEncoding resp = ''gzip''
         then (case gzip_ReadAll c original of
                 Inl err \<Rightarrow> (Inl err, resp1)
               | Inr content \<Rightarrow> (Inr content, resp1\<lparr>Body := Reader original\<rparr>))
         else (Inr original, resp1\<lparr>Body := Reader original\<rparr>))"

definition ProxyResponseHandler ::
  "collaborators \<Rightarrow> Response \<Rightarrow> state \<Rightarrow> error option \<times> Response \<times> state" where
  "ProxyResponseHandler c resp s =
     (if \<not> sublist ''/backend-graphql/'' (RequestURLPath resp) then (None, resp, s)
      else
        let content = (case requestContent s (RequestPtr resp) of None \<Rightarrow> [] | Some b \<Rightarrow> b);
            s1 = s\<lparr>requestContent := (requestContent s)(RequestPtr resp := None)\<rparr>
        in if content = []
           then (None, resp,
                 Handler_log ''warning'' (''no request content, '' @ RequestURLPath resp) s1)
           else case ParseRequest c content of
             Inl err \<Rightarrow> (None, resp, Report ''error'' (Error err) s1)
           | Inr graphQLRequest \<Rightarrow>
               if \<not> ShouldRecordRequest c graphQLRequest then (None, resp, s1)
               else (case readAndResetResponseContent c resp of
                 (Inl err, resp') \<Rightarrow>
                   (None, resp', Handler_log ''error'' ''could not read response'' s1)
               | (Inr responseContent, resp') \<Rightarrow>
                   let currentRequestID = nextRequestID s1;
                       s2 = s1\<lparr>nextRequestID := nextRequestID s1 + 1\<rparr>;
                       shouldSnapshot = ShouldSnapshotRequest c graphQLRequest;
                       s3 = send \<lparr>RequestID = currentRequestID,
                                  InfoOperationType = OperationType graphQLRequest,
                                  InfoOperationName = OperationName graphQLRequest,
                                  WillSnapshot = shouldSnapshot,
                                  ShapshotComplete = False\<rparr> s2;
                       s4 = s3\<lparr>disk := snd (SaveRequest currentRequestID content (disk s3))\<rparr>;
                       s5 = s4\<lparr>disk :=
                               snd (SaveResponse currentRequestID responseContent (disk s4))\<rparr>;
                       s6 = Handler_log (OperationType graphQLRequest)
                              (FormatRequestID currentRequestID @ '' ''
                                 @ OperationName graphQLRequest) s5
                   in if shouldSnapshot
                      then (case TakeSnapshot c currentRequestID graphQLRequest s6 of
                        (err, s7) \<Rightarrow>
                          (None, resp',
                           send \<lparr>RequestID = currentRequestID,
                                 InfoOperationType = OperationType graphQLRequest,
                                 InfoOperationName = OperationName graphQLRequest,
                                 WillSnapshot = shouldSnapshot,
                                 ShapshotComplete = (err = None)\<rparr> s7))
                      else (None, resp', s6)))"

section \<open>Package server\<close>

definition Server_takeSnapshot ::
  "collaborators \<Rightarrow> int \<Rightarrow> GraphQLRequest \<Rightarrow> state \<Rightarrow> error option \<times> state" where
  "Server_takeSnapshot c requestID graphQLRequest s =
     (let s1 = Report '''' (''taking a snapshot, '' @ SnapshotInfo c @ ''...'') s
      in case Snapshotter_TakeSnapshot c graphQLRequest of
           Inl err \<Rightarrow> (Some err, s1)
         | Inr snapshot \<Rightarrow>
             (let s2 = Report '''' ''...done'' s1
              in (None, s2\<lparr>disk := snd (SaveSnapshot requestID snapshot (disk s2))\<rparr>)))"

text \<open>\<open>proxy.GraphQLRequest{}\<close>, the zero value.\<close>

definition GraphQLRequest_zero :: GraphQLRequest where
  "GraphQLRequest_zero = \<lparr>OperationName = [], Variables = [], Query = [], OperationType = []\<rparr>"

definition takeInitialSnapshotIfNeeded :: "collaborators \<Rightarrow> state \<Rightarrow> error option \<times> state" where
  "takeInitialSnapshotIfNeeded c s =
     (case NextRequestID (disk s) of
        Inl err \<Rightarrow> (Some err, s)
      | Inr nextRequestID' \<Rightarrow>
          if nextRequestID' \<noteq> 0 then (None, s)
          else Server_takeSnapshot c 0 GraphQLRequest_zero s)"

text \<open>
  \<open>ListenAndServe\<close> up to the point where the two listeners start: the state in which the
  proxy begins to serve, or the error that ends the process.
\<close>

definition ListenAndServe :: "collaborators \<Rightarrow> filesystem \<Rightarrow> error + state" where
  "ListenAndServe c fs =
     (case NewHandler c ''127.0.0.1:7081'' ''http://127.0.0.1:8081'' fs of
        Inl err \<Rightarrow> Inl err
      | Inr proxyHandler \<Rightarrow>
          (case takeInitialSnapshotIfNeeded c proxyHandler of
             (Some err, s) \<Rightarrow> Inl err
           | (None, s) \<Rightarrow> Inr s))"

section \<open>Package tool\<close>

text \<open>The source's \<open>_getAllRequestInfo\<close>; a name cannot begin with an underscore here.\<close>

fun getAllRequestInfo_loop ::
  "collaborators \<Rightarrow> filesystem \<Rightarrow> int list \<Rightarrow> RequestInfo list \<Rightarrow> error + RequestInfo list" where
  "getAllRequestInfo_loop c fs [] records = Inr records"
| "getAllRequestInfo_loop c fs (requestID # requestIDs) records =
     (case GetRequest fs requestID of
        Inl err \<Rightarrow> Inl err
      | Inr request \<Rightarrow>
          (case ParseRequest c request of
             Inl err \<Rightarrow> Inl err
           | Inr graphQLRequest \<Rightarrow>
               (case MaybeGetSnapshot fs requestID of
                  Inl err \<Rightarrow> Inl err
                | Inr snapshot \<Rightarrow>
                    getAllRequestInfo_loop c fs requestIDs
                      (records @ [\<lparr>RequestID = requestID,
                                    InfoOperationType = OperationType graphQLRequest,
                                    InfoOperationName = OperationName graphQLRequest,
                                    WillSnapshot = (snapshot \<noteq> None),
                                    ShapshotComplete = (snapshot \<noteq> None)\<rparr>]))))"

definition getAllRequestInfo :: "collaborators \<Rightarrow> filesystem \<Rightarrow> error + RequestInfo list" where
  "getAllRequestInfo c fs =
     (case GetAllRequestIDs fs of
        Inl err \<Rightarrow> Inl err
      | Inr requestIDs \<Rightarrow> getAllRequestInfo_loop c fs requestIDs [])"

section \<open>Vocabulary of the statements, and example inputs\<close>

text \<open>
  A name of the on-disk layout: \<open>request-\<close> followed by exactly six decimal digits.
\<close>

definition layout_name :: "string \<Rightarrow> bool" where
  "layout_name n \<longleftrightarrow> length n = 14 \<and> take 8 n = ''request-'' \<and> list_all isdigit (drop 8 n)"

text \<open>The number that \<open>GetAllRequestIDs\<close> reads from an entry name.\<close>

definition group_value :: "string \<Rightarrow> int" where
  "group_value name = decimal (FindStringSubmatch name ! 1)"

text \<open>The entry names as \<open>ioutil.ReadDir\<close> returns them.\<close>

definition listing :: "filesystem \<Rightarrow> string list" where
  "listing fs = sort (remdups (map fst (entries fs)))"

text \<open>The content of a file of the directory, whether or not it can be read.\<close>

definition lookup_file :: "filesystem \<Rightarrow> string \<Rightarrow> string \<Rightarrow> bytes option" where
  "lookup_file fs dir filename =
     (case map_of (entries fs) dir of None \<Rightarrow> None | Some files \<Rightarrow> map_of files filename)"

text \<open>A directory with the given entries in which no call of the operating system fails.\<close>

definition directory :: "(string \<times> (string \<times> bytes) list) list \<Rightarrow> filesystem" where
  "directory es = \<lparr>entries = es, readdir_fails = False, read_fails = (\<lambda>dir filename. False),
                   mkdir_fails = (\<lambda>dir. False), write_fails = (\<lambda>dir filename. False)\<rparr>"

text \<open>
  Example directories.  \<open>store_two\<close> is what two recorded operations leave behind after a
  bootstrap snapshot; \<open>store_renamed\<close> holds a directory that somebody renamed;
  \<open>store_notes\<close> holds a foreign file; in \<open>store_unreadable\<close> one snapshot file is
  there but cannot be read.
\<close>

definition store_two :: filesystem where
  "store_two = directory
     [(''request-000002'', [(''request.txt'', ''M''), (''response.txt'', ''r2''), (''snapshot.txt'', ''s2'')]),
      (''request-000000'', [(''snapshot.txt'', ''boot'')]),
      (''request-000001'', [(''request.txt'', ''Q''), (''response.txt'', ''r1'')])]"

definition store_renamed :: filesystem where
  "store_renamed = directory
     [(''request-000001'', [(''request.txt'', ''Q''), (''response.txt'', ''r1'')]),
      (''old-request-000005'', [(''request.txt'', ''Q''), (''response.txt'', ''r5'')])]"

definition store_notes :: filesystem where
  "store_notes = directory
     [(''request-000001'', [(''request.txt'', ''Q''), (''response.txt'', ''r1'')]),
      (''notes.txt'', [])]"


text \<open>
  In \<open>store_full\<close> every write fails; \<open>store_copied\<close> holds a copy of a record's
  directory under another name; in \<open>store_partial\<close> a record lacks its request file.
\<close>

definition store_full :: filesystem where
  "store_full = store_two\<lparr>write_fails := (\<lambda>dir filename. True)\<rparr>"

definition store_copied :: filesystem where
  "store_copied = directory
     [(''request-000000'', [(''snapshot.txt'', ''boot'')]),
      (''request-000001'', [(''request.txt'', ''Q''), (''response.txt'', ''r1'')]),
      (''request-000002'', [(''request.txt'', ''M''), (''response.txt'', ''r2''), (''snapshot.txt'', ''s2'')]),
      (''old-request-000002'', [(''request.txt'', ''M''), (''response.txt'', ''r2''), (''snapshot.txt'', ''s2'')])]"

definition store_partial :: filesystem where
  "store_partial = directory
     [(''request-000000'', [(''snapshot.txt'', ''boot'')]),
      (''request-000001'', [(''response.txt'', ''r1'')])]"

text \<open>
  \<open>store_zero\<close> holds the bootstrap snapshot and, in the same directory, the request and
  the response of a record.
\<close>

definition store_zero :: filesystem where
  "store_zero = directory
     [(''request-000000'',
       [(''snapshot.txt'', ''boot''), (''request.txt'', ''Q''), (''response.txt'', ''r0'')])]"

text \<open>
  Example collaborators: a selector and a snapshotter like those of the tests, and a decoder
  that knows three payloads: \<open>Q\<close>, a query to record; \<open>M\<close>, a mutation to
  record; \<open>S\<close>, a query of some other operation.
\<close>

definition decode :: "bytes \<Rightarrow> error + GraphQLRequest" where
  "decode b =
     (if b = ''Q'' then Inr \<lparr>OperationName = ''operationToRecord'', Variables = [],
                            Query = ''query operationToRecord { someQuery }'',
                            OperationType = []\<rparr>
      else if b = ''M'' then Inr \<lparr>OperationName = ''operationToRecord'', Variables = [],
                            Query = ''mutation operationToRecord { someMutation }'',
                            OperationType = []\<rparr>
      else if b = ''S'' then Inr \<lparr>OperationName = ''someOperation'', Variables = [],
                            Query = ''query someOperation { field }'',
                            OperationType = []\<rparr>
      else Inl (Failure ''invalid character''))"

definition c_ok :: collaborators where
  "c_ok = \<lparr>ShouldRecordRequest = (\<lambda>r. OperationName r = ''operationToRecord''),
           ShouldSnapshotRequest = (\<lambda>r. OperationType r = OperationTypeMutation),
           Snapshotter_TakeSnapshot = (\<lambda>r. Inr ''snap''),
           SnapshotInfo = ''(snapshot description)'',
           json_Unmarshal = decode,
           gzip_ReadAll = (\<lambda>b. Inr b),
           url_Parse = (\<lambda>u. Inr \<lparr>Scheme = ''http'', URLHost = ''127.0.0.1:8081'', Path = []\<rparr>)\<rparr>"

text \<open>A snapshotter whose capture fails.\<close>

definition c_failing :: collaborators where
  "c_failing = c_ok\<lparr>Snapshotter_TakeSnapshot := (\<lambda>r. Inl (Failure ''export failed''))\<rparr>"


text \<open>
  One exchange: the request passes \<open>ProxyDirector\<close>, the upstream answers, and the response
  passes \<open>ProxyResponseHandler\<close>.  The request is the one at address \<open>p\<close>, with the
  given path and body.
\<close>

definition graphql_path :: string where
  "graphql_path = ''/api/internal/_mt/backend-graphql/operationToRecord''"

definition request_with :: "string \<Rightarrow> bytes \<Rightarrow> Request" where
  "request_with path b = \<lparr>Host = ''www.khanacademy.org'',
                            RequestURL = \<lparr>Scheme = ''http'', URLHost = ''www.khanacademy.org'', Path = path\<rparr>,
                            RequestBody = Some b\<rparr>"

definition response_for :: "nat \<Rightarrow> string \<Rightarrow> Response" where
  "response_for p path = \<lparr>RequestPtr = p, RequestURLPath = path, ContentEncoding = [],
                            Body = Reader ''some content from the origin'', CloseFails = False\<rparr>"

definition exchange :: "collaborators \<Rightarrow> nat \<Rightarrow> string \<Rightarrow> bytes \<Rightarrow> state \<Rightarrow> state" where
  "exchange c p path b s =
     snd (snd (ProxyResponseHandler c (response_for p path)
                 (snd (ProxyDirector p (request_with path b) s))))"

text \<open>
  The states that \<open>NewHandler\<close> builds on \<open>store_two\<close>, on \<open>store_full\<close> and on the
  empty directory (lemmas \<open>handler_two_reachable\<close>, \<open>handler_full_reachable\<close> and
  \<open>handler_empty_reachable\<close>).
\<close>

definition handler_two :: state where
  "handler_two =
     \<lparr>host = ''127.0.0.1:7081'',
      proxyOrigin = \<lparr>Scheme = ''http'', URLHost = ''127.0.0.1:8081'', Path = []\<rparr>,
      nextRequestID = 3,
      requestContent = Map.empty,
      reports = [(''warning'', ''existing requests in output dir, next request id: 3'')],
      requestInfoChan = [],
      disk = store_two\<rparr>"

definition handler_full :: state where
  "handler_full = handler_two\<lparr>disk := store_full\<rparr>"

definition handler_empty :: state where
  "handler_empty =
     \<lparr>host = ''127.0.0.1:7081'',
      proxyOrigin = \<lparr>Scheme = ''http'', URLHost = ''127.0.0.1:8081'', Path = []\<rparr>,
      nextRequestID = 0,
      requestContent = Map.empty,
      reports = [(''warning'', ''existing requests in output dir, next request id: 0'')],
      requestInfoChan = [],
      disk = directory []\<rparr>"

section \<open>Lemmas\<close>

subsection \<open>Decimal numbers\<close>

lemma decimal_acc: "foldl (\<lambda>acc c. acc * 10 + digit_val c) a ds
    = a * 10 ^ length ds + foldl (\<lambda>acc c. acc * 10 + digit_val c) 0 ds"
proof -
  define f where "f = (\<lambda>(acc::int) c. acc * 10 + digit_val c)"
  have "foldl f a ds = a * 10 ^ length ds + foldl f 0 ds"
  proof (induction ds arbitrary: a)
    case Nil
    then show ?case by simp
  next
    case (Cons d ds)
    have 1: "foldl f (f a d) ds = f a d * 10 ^ length ds + foldl f 0 ds" by (rule Cons.IH)
    have 2: "foldl f (f 0 d) ds = f 0 d * 10 ^ length ds + foldl f 0 ds" by (rule Cons.IH)
    have 3: "f a d = a * 10 + digit_val d" "f 0 d = digit_val d" by (simp_all add: f_def)
    have A: "foldl f a (d # ds) = (a * 10 + digit_val d) * 10 ^ length ds + foldl f 0 ds"
      using 1 3 by simp
    have B: "foldl f 0 (d # ds) = digit_val d * 10 ^ length ds + foldl f 0 ds"
      using 2 3 by simp
    show ?case unfolding A B by (simp add: algebra_simps)
  qed
  then show ?thesis by (simp add: f_def)
qed

lemma decimal_Cons: "decimal (c # ds) = digit_val c * 10 ^ length ds + decimal ds"
  using decimal_acc [of "digit_val c" ds] by (simp add: decimal_def)

lemma decimal_Nil: "decimal [] = 0"
  by (simp add: decimal_def)

lemma digit_val_range: "isdigit c \<Longrightarrow> 0 \<le> digit_val c \<and> digit_val c \<le> 9"
  by (simp add: isdigit_def digit_val_def less_eq_char_def)

lemma digit_val_less: "c < d \<Longrightarrow> digit_val c < digit_val d"
  by (simp add: digit_val_def less_char_def)

lemma decimal_bounds: "list_all isdigit ds \<Longrightarrow> 0 \<le> decimal ds \<and> decimal ds < 10 ^ length ds"
proof (induction ds)
  case Nil
  then show ?case by (simp add: decimal_Nil)
next
  case (Cons c ds)
  then have r: "0 \<le> digit_val c" "digit_val c \<le> 9" and ih: "0 \<le> decimal ds" "decimal ds < 10 ^ length ds"
    using digit_val_range by auto
  have "digit_val c * 10 ^ length ds \<le> 9 * 10 ^ length ds"
    using r by (simp add: mult_right_mono)
  moreover have "0 \<le> digit_val c * 10 ^ length ds"
    using r by simp
  ultimately have "0 \<le> digit_val c * 10 ^ length ds + decimal ds"
    and "digit_val c * 10 ^ length ds + decimal ds < 10 * 10 ^ length ds"
    using ih by linarith+
  then show ?case by (simp add: decimal_Cons)
qed

lemma decimal_less:
  "length xs = length ys \<Longrightarrow> list_all isdigit xs \<Longrightarrow> list_all isdigit ys \<Longrightarrow> xs < ys
     \<Longrightarrow> decimal xs < decimal ys"
proof (induction xs ys rule: list_induct2)
  case Nil
  then show ?case by simp
next
  case (Cons x xs y ys)
  from Cons.prems have dx: "list_all isdigit xs" and dy: "list_all isdigit ys" by simp_all
  from Cons.prems(3) have "x < y \<or> x = y \<and> xs < ys" by simp
  then show ?case
  proof
    assume "x < y"
    then have "digit_val x + 1 \<le> digit_val y" using digit_val_less [of x y] by simp
    then have "(digit_val x + 1) * 10 ^ length ys \<le> digit_val y * 10 ^ length ys"
      by (simp add: mult_right_mono)
    moreover have "decimal xs < 10 ^ length ys" using decimal_bounds [OF dx] Cons.hyps by simp
    moreover have "0 \<le> decimal ys" using decimal_bounds [OF dy] by simp
    ultimately have "digit_val x * 10 ^ length ys + decimal xs
        < digit_val y * 10 ^ length ys + decimal ys"
      by (simp add: algebra_simps)
    then show ?thesis using Cons.hyps by (simp add: decimal_Cons)
  next
    assume "x = y \<and> xs < ys"
    then show ?thesis using Cons.IH dx dy Cons.hyps by (simp add: decimal_Cons)
  qed
qed


lemma Max_strict_sorted: "sorted_wrt (<) (xs::int list) \<Longrightarrow> xs \<noteq> [] \<Longrightarrow> Max (set xs) = last xs"
proof (induction xs)
  case Nil
  then show ?case by simp
next
  case (Cons x xs)
  show ?case
  proof (cases "xs = []")
    case True
    then show ?thesis by simp
  next
    case False
    with Cons have m: "Max (set xs) = last xs" by simp
    have "x < last xs" using Cons.prems False by (simp add: last_in_set)
    then show ?thesis using False m by (simp add: max_def)
  qed
qed

lemma append_less_append: "(p @ a < p @ b) = (a < (b::string))"
  by (induction p) simp_all

lemma Atoi_digits:
  assumes "list_all isdigit ds" "length ds = 6"
  shows "Atoi ds = Inr (decimal ds)"
proof -
  from assms obtain c cs where ds: "ds = c # cs" by (cases ds) auto
  with assms have "isdigit c" by simp
  then have sign: "c \<noteq> CHR ''-''" "c \<noteq> CHR ''+''"
    by (auto simp: isdigit_def less_eq_char_def)
  have "0 \<le> decimal ds" "decimal ds < 10 ^ 6" using decimal_bounds [OF assms(1)] assms(2) by simp_all
  then show ?thesis using assms sign ds by (simp add: Atoi_def Let_def)
qed

subsection \<open>The listing of the directory\<close>

lemma requestDirRegex_at_match:
  "requestDirRegex_at s \<noteq> [] \<Longrightarrow>
     length (requestDirRegex_at s) = 2 \<and> length (requestDirRegex_at s ! 1) = 6
     \<and> list_all isdigit (requestDirRegex_at s ! 1)"
  by (simp add: requestDirRegex_at_def split: if_splits)

lemma FindStringSubmatch_match:
  "FindStringSubmatch s \<noteq> [] \<Longrightarrow>
     length (FindStringSubmatch s) = 2 \<and> length (FindStringSubmatch s ! 1) = 6
     \<and> list_all isdigit (FindStringSubmatch s ! 1)"
proof (induction s)
  case Nil
  then show ?case by simp
next
  case (Cons c cs)
  show ?case
  proof (cases "requestDirRegex_at (c # cs) = []")
    case True
    with Cons show ?thesis by simp
  next
    case False
    then show ?thesis using requestDirRegex_at_match [OF False] by simp
  qed
qed

lemma requestDirRegex_at_iff:
  "requestDirRegex_at s \<noteq> [] \<longleftrightarrow>
     (\<exists>d post. s = ''request-'' @ d @ post \<and> length d = 6 \<and> list_all isdigit d)"
proof
  assume m: "requestDirRegex_at s \<noteq> []"
  then have 1: "take 8 s = ''request-''" and 2: "length (take 6 (drop 8 s)) = 6"
    and 3: "list_all isdigit (take 6 (drop 8 s))"
    by (simp_all add: requestDirRegex_at_def split: if_splits)
  have "s = take 8 s @ take 6 (drop 8 s) @ drop 6 (drop 8 s)"
    by (simp only: append_take_drop_id)
  with 1 have "s = ''request-'' @ take 6 (drop 8 s) @ drop 6 (drop 8 s)"
    by (simp only:)
  with 2 3 show "\<exists>d post. s = ''request-'' @ d @ post \<and> length d = 6 \<and> list_all isdigit d"
    by blast
next
  assume "\<exists>d post. s = ''request-'' @ d @ post \<and> length d = 6 \<and> list_all isdigit d"
  then obtain d post where "s = ''request-'' @ d @ post" "length d = 6" "list_all isdigit d"
    by blast
  then show "requestDirRegex_at s \<noteq> []" by (simp add: requestDirRegex_at_def)
qed

lemma FindStringSubmatch_iff:
  "FindStringSubmatch s \<noteq> [] \<longleftrightarrow>
     (\<exists>pre d post. s = pre @ ''request-'' @ d @ post \<and> length d = 6 \<and> list_all isdigit d)"
proof (induction s)
  case Nil
  then show ?case by simp
next
  case (Cons c cs)
  show ?case
  proof
    assume m: "FindStringSubmatch (c # cs) \<noteq> []"
    show "\<exists>pre d post. c # cs = pre @ ''request-'' @ d @ post \<and> length d = 6 \<and> list_all isdigit d"
    proof (cases "requestDirRegex_at (c # cs) = []")
      case True
      with m have "FindStringSubmatch cs \<noteq> []" by simp
      with Cons.IH obtain pre d post where
        "cs = pre @ ''request-'' @ d @ post" "length d = 6" "list_all isdigit d" by blast
      then have "c # cs = (c # pre) @ ''request-'' @ d @ post \<and> length d = 6 \<and> list_all isdigit d"
        by simp
      then show ?thesis by blast
    next
      case False
      then obtain d post where
        "c # cs = [] @ ''request-'' @ d @ post \<and> length d = 6 \<and> list_all isdigit d"
        using requestDirRegex_at_iff [of "c # cs"] by auto
      then show ?thesis by blast
    qed
  next
    assume "\<exists>pre d post. c # cs = pre @ ''request-'' @ d @ post \<and> length d = 6 \<and> list_all isdigit d"
    then obtain pre d post where
      e: "c # cs = pre @ ''request-'' @ d @ post" and d: "length d = 6" "list_all isdigit d"
      by blast
    show "FindStringSubmatch (c # cs) \<noteq> []"
    proof (cases pre)
      case Nil
      with e d have "requestDirRegex_at (c # cs) \<noteq> []"
        using requestDirRegex_at_iff [of "c # cs"] by auto
      then show ?thesis by simp
    next
      case (Cons p pre')
      with e have "cs = pre' @ ''request-'' @ d @ post" by simp
      with d Cons.IH have "FindStringSubmatch cs \<noteq> []" by blast
      then show ?thesis by simp
    qed
  qed
qed

lemma FindStringSubmatch_layout:
  assumes "layout_name n"
  shows "FindStringSubmatch n = [n, drop 8 n]"
proof -
  from assms have l: "length n = 14" and p: "take 8 n = ''request-''"
    and d: "list_all isdigit (drop 8 n)" by (simp_all add: layout_name_def)
  from l obtain c cs where n: "n = c # cs" by (cases n) auto
  have "requestDirRegex_at n = [n, drop 8 n]"
    using l p d by (simp add: requestDirRegex_at_def)
  then show ?thesis using n by simp
qed

lemma GetAllRequestIDs_loop_ok:
  "\<forall>n\<in>set names. FindStringSubmatch n \<noteq> [] \<Longrightarrow>
     GetAllRequestIDs_loop names acc
       = Inr (acc @ filter (\<lambda>i. i \<noteq> 0) (map group_value names))"
proof (induction names arbitrary: acc)
  case Nil
  then show ?case by simp
next
  case (Cons n names)
  then have m: "FindStringSubmatch n \<noteq> []" by simp
  from FindStringSubmatch_match [OF m]
  have a: "Atoi (FindStringSubmatch n ! 1) = Inr (group_value n)"
    by (simp add: Atoi_digits group_value_def)
  from Cons show ?case using m a by (simp add: Let_def)
qed

lemma GetAllRequestIDs_loop_bad:
  "\<exists>n\<in>set names. FindStringSubmatch n = [] \<Longrightarrow>
     \<exists>n\<in>set names. FindStringSubmatch n = [] \<and>
        GetAllRequestIDs_loop names acc
          = Inl (Failure (''invalid request directory name '' @ [CHR 0x22] @ n @ [CHR 0x22]))"
proof (induction names arbitrary: acc)
  case Nil
  then show ?case by simp
next
  case (Cons n names)
  show ?case
  proof (cases "FindStringSubmatch n = []")
    case True
    then show ?thesis by (simp add: Let_def)
  next
    case False
    from FindStringSubmatch_match [OF False]
    have a: "Atoi (FindStringSubmatch n ! 1) = Inr (group_value n)"
      by (simp add: Atoi_digits group_value_def)
    from Cons.prems False have "\<exists>n\<in>set names. FindStringSubmatch n = []" by auto
    from Cons.IH [OF this] show ?thesis using False a by (simp add: Let_def)
  qed
qed

lemma set_listing: "set (listing fs) = fst ` set (entries fs)"
  by (simp add: listing_def)

lemma strict_sorted_listing: "sorted_wrt (<) (listing fs)"
  by (simp add: listing_def strict_sorted_iff)

lemma GetAllRequestIDs_cases:
  "GetAllRequestIDs fs =
     (if readdir_fails fs then Inl (Failure ''readdir'')
      else GetAllRequestIDs_loop (listing fs) [])"
  by (cases "listing fs") (simp_all add: GetAllRequestIDs_def ioutil_ReadDir_def listing_def)

lemma GetAllRequestIDs_Inr:
  assumes "GetAllRequestIDs fs = Inr ids"
  shows "\<not> readdir_fails fs" and "\<forall>n\<in>fst ` set (entries fs). FindStringSubmatch n \<noteq> []"
    and "ids = filter (\<lambda>i. i \<noteq> 0) (map group_value (listing fs))"
proof -
  show r: "\<not> readdir_fails fs" using assms by (auto simp: GetAllRequestIDs_cases split: if_splits)
  then have l: "GetAllRequestIDs_loop (listing fs) [] = Inr ids"
    using assms by (simp add: GetAllRequestIDs_cases)
  show a: "\<forall>n\<in>fst ` set (entries fs). FindStringSubmatch n \<noteq> []"
  proof (rule ccontr)
    assume "\<not> ?thesis"
    then have "\<exists>n\<in>set (listing fs). FindStringSubmatch n = []" by (simp add: set_listing)
    from GetAllRequestIDs_loop_bad [OF this, of "[]"] l show False by auto
  qed
  then have "\<forall>n\<in>set (listing fs). FindStringSubmatch n \<noteq> []" by (simp add: set_listing)
  from GetAllRequestIDs_loop_ok [OF this, of "[]"] l
  show "ids = filter (\<lambda>i. i \<noteq> 0) (map group_value (listing fs))" by simp
qed

lemma group_value_nonneg: "FindStringSubmatch n \<noteq> [] \<Longrightarrow> 0 \<le> group_value n"
  using FindStringSubmatch_match [of n] decimal_bounds [of "FindStringSubmatch n ! 1"]
  by (simp add: group_value_def)

lemma GetAllRequestIDs_positive:
  assumes "GetAllRequestIDs fs = Inr ids" and "i \<in> set ids"
  shows "0 < i"
proof -
  from GetAllRequestIDs_Inr [OF assms(1)] assms(2)
  obtain n where "n \<in> set (listing fs)" "FindStringSubmatch n \<noteq> []" "i = group_value n" "i \<noteq> 0"
    by (auto simp: set_listing)
  then show ?thesis using group_value_nonneg [of n] by simp
qed

lemma NextRequestID_cases:
  "GetAllRequestIDs fs = Inr ids \<Longrightarrow>
     NextRequestID fs = (if ids = [] then Inr 0 else Inr (last ids + 1))"
  by (simp add: NextRequestID_def last_conv_nth)

lemma layout_group_value_less:
  assumes "layout_name a" "layout_name b" "a < b"
  shows "group_value a < group_value b"
proof -
  from assms(1) have a: "a = ''request-'' @ drop 8 a" "length (drop 8 a) = 6" "list_all isdigit (drop 8 a)"
    using append_take_drop_id [of 8 a] by (simp_all add: layout_name_def)
  from assms(2) have b: "b = ''request-'' @ drop 8 b" "length (drop 8 b) = 6" "list_all isdigit (drop 8 b)"
    using append_take_drop_id [of 8 b] by (simp_all add: layout_name_def)
  from assms(3) a(1) b(1) have "''request-'' @ drop 8 a < ''request-'' @ drop 8 b" by simp
  then have "drop 8 a < drop 8 b" by (simp only: append_less_append)
  then have "decimal (drop 8 a) < decimal (drop 8 b)"
    using decimal_less a b by simp
  then show ?thesis
    using assms by (simp add: group_value_def FindStringSubmatch_layout)
qed

lemma layout_ids_sorted:
  assumes "GetAllRequestIDs fs = Inr ids" and "\<forall>n\<in>fst ` set (entries fs). layout_name n"
  shows "sorted_wrt (<) ids"
proof -
  have "sorted_wrt (\<lambda>a b. group_value a < group_value b) (listing fs)"
  proof (rule sorted_wrt_mono_rel [OF _ strict_sorted_listing])
    fix a b
    assume "a \<in> set (listing fs)" "b \<in> set (listing fs)" "a < b"
    then show "group_value a < group_value b"
      using assms(2) layout_group_value_less by (auto simp: set_listing)
  qed
  then have "sorted_wrt (<) (map group_value (listing fs))" by (simp add: sorted_wrt_map)
  then show ?thesis
    using GetAllRequestIDs_Inr(3) [OF assms(1)] by (simp add: sorted_wrt_filter)
qed

subsection \<open>The loop of \<open>GetPriorSnapshot\<close>\<close>




subsection \<open>Reading after writing\<close>


lemma map_of_snoc:
  "map_of (es @ [(k, v)]) k' =
     (case map_of es k' of Some x \<Rightarrow> Some x | None \<Rightarrow> if k' = k then Some v else None)"
  by (induction es) auto

lemma os_MkdirAll_frame:
  "readdir_fails (snd (os_MkdirAll dir fs)) = readdir_fails fs"
  "read_fails (snd (os_MkdirAll dir fs)) = read_fails fs"
  "mkdir_fails (snd (os_MkdirAll dir fs)) = mkdir_fails fs"
  "write_fails (snd (os_MkdirAll dir fs)) = write_fails fs"
  "lookup_file (snd (os_MkdirAll dir fs)) d f = lookup_file fs d f"
  "fst (os_MkdirAll dir fs) = None \<Longrightarrow> map_of (entries (snd (os_MkdirAll dir fs))) dir \<noteq> None"
  by (auto simp: os_MkdirAll_def lookup_file_def map_of_snoc simp del: map_of_append
           split: option.splits if_splits)

lemma ioutil_WriteFile_frame:
  "readdir_fails (snd (ioutil_WriteFile dir filename content fs)) = readdir_fails fs"
  "read_fails (snd (ioutil_WriteFile dir filename content fs)) = read_fails fs"
  "mkdir_fails (snd (ioutil_WriteFile dir filename content fs)) = mkdir_fails fs"
  "write_fails (snd (ioutil_WriteFile dir filename content fs)) = write_fails fs"
  "lookup_file (snd (ioutil_WriteFile dir filename content fs)) d f =
     (if fst (ioutil_WriteFile dir filename content fs) = None \<and> d = dir \<and> f = filename
      then Some content else lookup_file fs d f)"
  by (auto simp: ioutil_WriteFile_def lookup_file_def update_conv' split: option.splits)

lemma saveFile_frame:
  "readdir_fails (snd (saveFile requestID filename content fs)) = readdir_fails fs"
  "read_fails (snd (saveFile requestID filename content fs)) = read_fails fs"
  "mkdir_fails (snd (saveFile requestID filename content fs)) = mkdir_fails fs"
  "write_fails (snd (saveFile requestID filename content fs)) = write_fails fs"
  "lookup_file (snd (saveFile requestID filename content fs)) d f =
     (if fst (saveFile requestID filename content fs) = None
         \<and> d = requestPath requestID \<and> f = filename
      then Some content else lookup_file fs d f)"
proof -
  obtain r fs1 where m: "os_MkdirAll (requestPath requestID) fs = (r, fs1)"
    by (cases "os_MkdirAll (requestPath requestID) fs")
  then have fs1: "fs1 = snd (os_MkdirAll (requestPath requestID) fs)" by simp
  have s: "saveFile requestID filename content fs =
      (case r of Some err \<Rightarrow> (Some err, fs1)
       | None \<Rightarrow> ioutil_WriteFile (requestPath requestID) filename content fs1)"
    using m by (simp add: saveFile_def Let_def split: option.splits)
  show "readdir_fails (snd (saveFile requestID filename content fs)) = readdir_fails fs"
    "read_fails (snd (saveFile requestID filename content fs)) = read_fails fs"
    "mkdir_fails (snd (saveFile requestID filename content fs)) = mkdir_fails fs"
    "write_fails (snd (saveFile requestID filename content fs)) = write_fails fs"
    "lookup_file (snd (saveFile requestID filename content fs)) d f =
     (if fst (saveFile requestID filename content fs) = None
         \<and> d = requestPath requestID \<and> f = filename
      then Some content else lookup_file fs d f)"
    unfolding s by (cases r; simp add: fs1 os_MkdirAll_frame ioutil_WriteFile_frame)+
qed






lemma requestPath_0: "requestPath 0 = ''request-000000''"
  by code_simp

lemma NextRequestID_not_one: "NextRequestID fs \<noteq> Inr 1"
proof (cases "GetAllRequestIDs fs")
  case (Inl err)
  then show ?thesis by (simp add: NextRequestID_def)
next
  case (Inr ids)
  show ?thesis
  proof (cases "ids = []")
    case True
    with Inr show ?thesis by (simp add: NextRequestID_cases)
  next
    case False
    then have "last ids \<in> set ids" by simp
    from GetAllRequestIDs_positive [OF Inr this] Inr False
    show ?thesis by (simp add: NextRequestID_cases)
  qed
qed

lemma NextRequestID_zero_iff: "NextRequestID fs = Inr 0 \<longleftrightarrow> GetAllRequestIDs fs = Inr []"
proof (cases "GetAllRequestIDs fs")
  case (Inl err)
  then show ?thesis by (simp add: NextRequestID_def)
next
  case (Inr ids)
  show ?thesis
  proof (cases "ids = []")
    case True
    with Inr show ?thesis by (simp add: NextRequestID_cases)
  next
    case False
    then have "last ids \<in> set ids" by simp
    from GetAllRequestIDs_positive [OF Inr this] Inr False
    show ?thesis by (simp add: NextRequestID_cases)
  qed
qed

lemma GetAllRequestIDs_empty_iff:
  "GetAllRequestIDs fs = Inr [] \<longleftrightarrow>
     \<not> readdir_fails fs
     \<and> list_all (\<lambda>n. FindStringSubmatch n \<noteq> [] \<and> group_value n = 0) (map fst (entries fs))"
proof
  assume a: "GetAllRequestIDs fs = Inr []"
  from GetAllRequestIDs_Inr [OF a]
  have r: "\<not> readdir_fails fs"
    and m: "\<forall>n\<in>fst ` set (entries fs). FindStringSubmatch n \<noteq> []"
    and f: "[] = filter (\<lambda>i. i \<noteq> 0) (map group_value (listing fs))"
    by simp_all
  from f have "\<forall>n\<in>set (listing fs). group_value n = 0"
    by (auto simp: filter_empty_conv dest: sym)
  with r m show "\<not> readdir_fails fs
     \<and> list_all (\<lambda>n. FindStringSubmatch n \<noteq> [] \<and> group_value n = 0) (map fst (entries fs))"
    by (auto simp: list_all_iff set_listing)
next
  assume b: "\<not> readdir_fails fs
     \<and> list_all (\<lambda>n. FindStringSubmatch n \<noteq> [] \<and> group_value n = 0) (map fst (entries fs))"
  then have m: "\<forall>n\<in>set (listing fs). FindStringSubmatch n \<noteq> []"
    and z: "\<forall>n\<in>set (listing fs). group_value n = 0"
    by (auto simp: list_all_iff set_listing)
  from z have "filter (\<lambda>i. i \<noteq> 0) (map group_value (listing fs)) = []"
    by (auto simp: filter_empty_conv)
  with GetAllRequestIDs_loop_ok [OF m, of "[]"] b
  show "GetAllRequestIDs fs = Inr []" by (simp add: GetAllRequestIDs_cases)
qed

subsection \<open>The paths through \<open>ProxyResponseHandler\<close>\<close>

lemma ProxyResponseHandler_rejected:
  assumes "sublist ''/backend-graphql/'' (RequestURLPath resp)"
    and "requestContent s (RequestPtr resp) = Some content" and "content \<noteq> []"
    and "ParseRequest c content = Inr r"
    and "\<not> ShouldRecordRequest c r"
  shows "ProxyResponseHandler c resp s
           = (None, resp, s\<lparr>requestContent := (requestContent s)(RequestPtr resp := None)\<rparr>)"
  using assms by (simp add: ProxyResponseHandler_def)

lemma ProxyResponseHandler_snapshot_fails:
  assumes "sublist ''/backend-graphql/'' (RequestURLPath resp)"
    and "requestContent s (RequestPtr resp) = Some content" and "content \<noteq> []"
    and "ParseRequest c content = Inr r"
    and "ShouldRecordRequest c r"
    and "readAndResetResponseContent c resp = (Inr responseContent, resp')"
    and "ShouldSnapshotRequest c r"
    and "Snapshotter_TakeSnapshot c r = Inl err"
  shows "ProxyResponseHandler c resp s =
    (None, resp',
     s\<lparr>nextRequestID := nextRequestID s + 1,
       requestContent := (requestContent s)(RequestPtr resp := None),
       reports := reports s @
         [(OperationType r, FormatRequestID (nextRequestID s) @ '' '' @ OperationName r),
          ('''', ''taking a snapshot, '' @ SnapshotInfo c @ ''...''),
          (''error'', Error err)],
       requestInfoChan := requestInfoChan s @
         [\<lparr>RequestID = nextRequestID s, InfoOperationType = OperationType r,
           InfoOperationName = OperationName r, WillSnapshot = True, ShapshotComplete = False\<rparr>,
          \<lparr>RequestID = nextRequestID s, InfoOperationType = OperationType r,
           InfoOperationName = OperationName r, WillSnapshot = True, ShapshotComplete = False\<rparr>],
       disk := snd (SaveResponse (nextRequestID s) responseContent
                      (snd (SaveRequest (nextRequestID s) content (disk s))))\<rparr>)"
  using assms
  by (simp add: ProxyResponseHandler_def TakeSnapshot_def Let_def Report_def Handler_log_def send_def)

lemma ProxyResponseHandler_returns_nil: "fst (ProxyResponseHandler c resp s) = None"
  by (simp add: ProxyResponseHandler_def Let_def split: sum.splits prod.splits)

lemma TakeSnapshot_reports:
  "reports (snd (TakeSnapshot c requestID r (s\<lparr>disk := d\<rparr>))) = reports (snd (TakeSnapshot c requestID r s))"
  by (simp add: TakeSnapshot_def Let_def Report_def split: sum.splits)

lemma ProxyResponseHandler_reports_disk:
  "reports (snd (snd (ProxyResponseHandler c resp (s\<lparr>disk := d\<rparr>))))
     = reports (snd (snd (ProxyResponseHandler c resp s)))"
  by (simp add: ProxyResponseHandler_def TakeSnapshot_def Let_def Report_def Handler_log_def send_def
           split: sum.splits prod.splits)

lemma readAndResetResponseContent_Inr:
  "readAndResetResponseContent c resp = (Inr responseContent, resp') \<Longrightarrow>
     resp' = resp\<lparr>Body := Reader (case Body resp of Reader b \<Rightarrow> b | Consumed \<Rightarrow> [])\<rparr>"
  by (auto simp: readAndResetResponseContent_def Let_def split: if_splits sum.splits)

lemma ProxyResponseHandler_accepted_response:
  assumes "sublist ''/backend-graphql/'' (RequestURLPath resp)"
    and "requestContent s (RequestPtr resp) = Some content" and "content \<noteq> []"
    and "ParseRequest c content = Inr r"
    and "ShouldRecordRequest c r"
    and "readAndResetResponseContent c resp = (Inr responseContent, resp')"
  shows "fst (snd (ProxyResponseHandler c resp s)) = resp'"
  using assms by (simp add: ProxyResponseHandler_def Let_def split: prod.splits)

lemma accepted_operation_takes_the_counter:
  assumes "sublist ''/backend-graphql/'' (RequestURLPath resp)"
    and "requestContent s (RequestPtr resp) = Some content" and "content \<noteq> []"
    and "ParseRequest c content = Inr r"
    and "ShouldRecordRequest c r"
    and "readAndResetResponseContent c resp = (Inr responseContent, resp')"
    and "ProxyResponseHandler c resp s = (result, resp'', s')"
  shows "nextRequestID s' = nextRequestID s + 1
    \<and> (\<exists>events. requestInfoChan s' = requestInfoChan s @ events \<and> events \<noteq> []
          \<and> (\<forall>info\<in>set events. RequestID info = nextRequestID s))"
  using assms
  by (auto simp: ProxyResponseHandler_def TakeSnapshot_def Let_def Report_def Handler_log_def
        send_def split: sum.splits if_splits)

subsection \<open>The loop of \<open>getAllRequestInfo\<close>\<close>

lemma getAllRequestInfo_loop_Inr:
  "getAllRequestInfo_loop c fs ids acc = Inr records \<Longrightarrow>
     \<exists>new. records = acc @ new \<and> map RequestID new = ids
       \<and> (\<forall>info\<in>set new.
            (\<exists>request r. GetRequest fs (RequestID info) = Inr request
                \<and> ParseRequest c request = Inr r
                \<and> InfoOperationType info = OperationType r
                \<and> InfoOperationName info = OperationName r)
            \<and> (\<exists>snapshot. MaybeGetSnapshot fs (RequestID info) = Inr snapshot
                \<and> WillSnapshot info = (snapshot \<noteq> None)
                \<and> ShapshotComplete info = (snapshot \<noteq> None)))"
proof (induction ids arbitrary: acc)
  case Nil
  then show ?case by simp
next
  case (Cons i ids)
  from Cons.prems obtain request r snapshot where
    1: "GetRequest fs i = Inr request" and 2: "ParseRequest c request = Inr r"
    and 3: "MaybeGetSnapshot fs i = Inr snapshot"
    and 4: "getAllRequestInfo_loop c fs ids
              (acc @ [\<lparr>RequestID = i, InfoOperationType = OperationType r,
                        InfoOperationName = OperationName r,
                        WillSnapshot = (snapshot \<noteq> None),
                        ShapshotComplete = (snapshot \<noteq> None)\<rparr>]) = Inr records"
    by (auto split: sum.splits)
  from Cons.IH [OF 4] obtain new where
    n: "records = (acc @ [\<lparr>RequestID = i, InfoOperationType = OperationType r,
                        InfoOperationName = OperationName r,
                        WillSnapshot = (snapshot \<noteq> None),
                        ShapshotComplete = (snapshot \<noteq> None)\<rparr>]) @ new"
      "map RequestID new = ids"
      "\<forall>info\<in>set new.
            (\<exists>request r. GetRequest fs (RequestID info) = Inr request
                \<and> ParseRequest c request = Inr r
                \<and> InfoOperationType info = OperationType r
                \<and> InfoOperationName info = OperationName r)
            \<and> (\<exists>snapshot. MaybeGetSnapshot fs (RequestID info) = Inr snapshot
                \<and> WillSnapshot info = (snapshot \<noteq> None)
                \<and> ShapshotComplete info = (snapshot \<noteq> None))"
    by blast
  show ?case
  proof (intro exI conjI)
    show "records = acc @ (\<lparr>RequestID = i, InfoOperationType = OperationType r,
                        InfoOperationName = OperationName r,
                        WillSnapshot = (snapshot \<noteq> None),
                        ShapshotComplete = (snapshot \<noteq> None)\<rparr> # new)"
      using n(1) by simp
    show "map RequestID (\<lparr>RequestID = i, InfoOperationType = OperationType r,
                        InfoOperationName = OperationName r,
                        WillSnapshot = (snapshot \<noteq> None),
                        ShapshotComplete = (snapshot \<noteq> None)\<rparr> # new) = i # ids"
      using n(2) by simp
    show "\<forall>info\<in>set (\<lparr>RequestID = i, InfoOperationType = OperationType r,
                        InfoOperationName = OperationName r,
                        WillSnapshot = (snapshot \<noteq> None),
                        ShapshotComplete = (snapshot \<noteq> None)\<rparr> # new).
            (\<exists>request r. GetRequest fs (RequestID info) = Inr request
                \<and> ParseRequest c request = Inr r
                \<and> InfoOperationType info = OperationType r
                \<and> InfoOperationName info = OperationName r)
            \<and> (\<exists>snapshot. MaybeGetSnapshot fs (RequestID info) = Inr snapshot
                \<and> WillSnapshot info = (snapshot \<noteq> None)
                \<and> ShapshotComplete info = (snapshot \<noteq> None))"
      using n(3) 1 2 3 by auto
  qed
qed

lemma getAllRequestInfo_loop_error_iff:
  "isl (getAllRequestInfo_loop c fs ids acc) \<longleftrightarrow>
     (\<exists>i\<in>set ids. isl (GetRequest fs i)
        \<or> (\<exists>request. GetRequest fs i = Inr request \<and> isl (ParseRequest c request))
        \<or> isl (MaybeGetSnapshot fs i))"
proof (induction ids arbitrary: acc)
  case Nil
  then show ?case by simp
next
  case (Cons i ids)
  show ?case
  proof (cases "GetRequest fs i")
    case (Inl err)
    then show ?thesis by simp
  next
    case request: (Inr request)
    show ?thesis
    proof (cases "ParseRequest c request")
      case (Inl err)
      with request show ?thesis by auto
    next
      case r: (Inr r)
      show ?thesis
      proof (cases "MaybeGetSnapshot fs i")
        case (Inl err)
        with request r show ?thesis by simp
      next
        case (Inr snapshot)
        with request r Cons.IH show ?thesis by simp
      qed
    qed
  qed
qed

subsection \<open>The example inputs\<close>

lemma NextRequestID_store_two: "NextRequestID store_two = Inr 3"
  by code_simp

lemma NextRequestID_store_full: "NextRequestID store_full = Inr 3"
  by code_simp

lemma NextRequestID_empty: "NextRequestID (directory []) = Inr 0"
  by code_simp

lemma Sprintf_d_3: "Sprintf_d 3 = ''3''"
  by code_simp

lemma Sprintf_d_0: "Sprintf_d 0 = ''0''"
  by code_simp

lemma handler_two_reachable:
  "url_Parse c ''http://127.0.0.1:8081''
       = Inr \<lparr>Scheme = ''http'', URLHost = ''127.0.0.1:8081'', Path = []\<rparr> \<Longrightarrow>
     NewHandler c ''127.0.0.1:7081'' ''http://127.0.0.1:8081'' store_two = Inr handler_two"
  by (simp add: NewHandler_def NextRequestID_store_two Sprintf_d_3 handler_two_def
        Handler_log_def Report_def)

lemma handler_full_reachable:
  "url_Parse c ''http://127.0.0.1:8081''
       = Inr \<lparr>Scheme = ''http'', URLHost = ''127.0.0.1:8081'', Path = []\<rparr> \<Longrightarrow>
     NewHandler c ''127.0.0.1:7081'' ''http://127.0.0.1:8081'' store_full = Inr handler_full"
  by (simp add: NewHandler_def NextRequestID_store_full Sprintf_d_3 handler_two_def
        handler_full_def Handler_log_def Report_def)

lemma handler_empty_reachable:
  "url_Parse c ''http://127.0.0.1:8081''
       = Inr \<lparr>Scheme = ''http'', URLHost = ''127.0.0.1:8081'', Path = []\<rparr> \<Longrightarrow>
     NewHandler c ''127.0.0.1:7081'' ''http://127.0.0.1:8081'' (directory []) = Inr handler_empty"
  by (simp add: NewHandler_def NextRequestID_empty Sprintf_d_0 handler_empty_def
        Handler_log_def Report_def)

lemma ParseRequest_S:
  "ParseRequest c_ok ''S''
     = Inr \<lparr>OperationName = ''someOperation'', Variables = [],
             Query = ''query someOperation { field }'', OperationType = ''query''\<rparr>"
  by (simp add: ParseRequest_def c_ok_def decode_def OperationTypeQuery_def)

lemma ParseRequest_M:
  "ParseRequest c_failing ''M''
     = Inr \<lparr>OperationName = ''operationToRecord'', Variables = [],
             Query = ''mutation operationToRecord { someMutation }'', OperationType = ''mutation''\<rparr>"
  by (simp add: ParseRequest_def c_failing_def c_ok_def decode_def OperationTypeQuery_def
        OperationTypeMutation_def)

section \<open>The claims\<close>

subsection \<open>C1: the identifiers assigned from an empty store\<close>

text \<open>
  Claim C1 has the identifiers \<open>1..N\<close> for \<open>N\<close> accepted operations on an empty store.
  On the empty directory \<open>NextRequestID\<close> returns 0; the handler takes it as its counter, the
  bootstrap snapshot is written, and the first two accepted operations are sent on the
  channel with the identifiers 0 and 1.  The list below is the counter when the proxy begins
  to serve, followed by the identifiers of the two events.
\<close>

theorem first_identifier_is_zero:
  "(case ListenAndServe c_ok (directory []) of
      Inl err \<Rightarrow> []
    | Inr s \<Rightarrow> nextRequestID s
        # map RequestID (requestInfoChan
            (exchange c_ok 2 graphql_path ''Q'' (exchange c_ok 1 graphql_path ''Q'' s))))
     = [0, 0, 1]"
  by code_simp

subsection \<open>C2: the guard of the bootstrap snapshot\<close>

text \<open>
  Claim C2, as the code has it.  The guard of \<open>takeInitialSnapshotIfNeeded\<close> is whether
  \<open>NextRequestID\<close> returns anything other than 0.  When \<open>NextRequestID\<close> fails, the
  function fails with its error; when it returns a value other than 0, nothing is done;
  when it returns 0, the snapshot of the zero request is taken: if the snapshotter fails,
  its error is returned and the directory is untouched, otherwise the bytes are saved under
  identifier 0, in \<open>request-000000/snapshot.txt\<close> when the write succeeds.
  \<open>NextRequestID\<close> never returns 1.  It returns 0 exactly when \<open>GetAllRequestIDs\<close>
  returns the empty list, which is exactly when the directory can be listed and every entry
  of it carries the number 0, as \<open>request-000000\<close> does; the files below the entries
  play no part in it.
\<close>

theorem bootstrap_runs_when_next_is_zero:
  "(\<forall>err. NextRequestID (disk s) = Inl err \<longrightarrow> takeInitialSnapshotIfNeeded c s = (Some err, s))
   \<and> (\<forall>n. NextRequestID (disk s) = Inr n \<and> n \<noteq> 0 \<longrightarrow>
          takeInitialSnapshotIfNeeded c s = (None, s))
   \<and> (NextRequestID (disk s) = Inr 0 \<longrightarrow>
        takeInitialSnapshotIfNeeded c s = Server_takeSnapshot c 0 GraphQLRequest_zero s
        \<and> (\<forall>err. Snapshotter_TakeSnapshot c GraphQLRequest_zero = Inl err \<longrightarrow>
              fst (takeInitialSnapshotIfNeeded c s) = Some err
              \<and> disk (snd (takeInitialSnapshotIfNeeded c s)) = disk s)
        \<and> (\<forall>snapshot. Snapshotter_TakeSnapshot c GraphQLRequest_zero = Inr snapshot \<longrightarrow>
              fst (takeInitialSnapshotIfNeeded c s) = None
              \<and> disk (snd (takeInitialSnapshotIfNeeded c s))
                  = snd (SaveSnapshot 0 snapshot (disk s))
              \<and> (fst (SaveSnapshot 0 snapshot (disk s)) = None \<longrightarrow>
                    lookup_file (disk (snd (takeInitialSnapshotIfNeeded c s)))
                      ''request-000000'' ''snapshot.txt'' = Some snapshot)))
   \<and> (NextRequestID (disk s) = Inr 0 \<longleftrightarrow> GetAllRequestIDs (disk s) = Inr [])
   \<and> NextRequestID (disk s) \<noteq> Inr 1
   \<and> (NextRequestID (disk s) = Inr 0 \<longleftrightarrow>
        \<not> readdir_fails (disk s)
        \<and> list_all (\<lambda>n. FindStringSubmatch n \<noteq> [] \<and> group_value n = 0)
             (map fst (entries (disk s))))"
proof -
  have w: "lookup_file (snd (SaveSnapshot 0 snapshot fs)) ''request-000000'' ''snapshot.txt''
             = Some snapshot"
    if "fst (SaveSnapshot 0 snapshot fs) = None" for snapshot fs
    using that by (simp add: SaveSnapshot_def saveFile_frame requestPath_0)
  have run: "(\<forall>err. NextRequestID (disk s) = Inl err \<longrightarrow> takeInitialSnapshotIfNeeded c s = (Some err, s))
   \<and> (\<forall>n. NextRequestID (disk s) = Inr n \<and> n \<noteq> 0 \<longrightarrow>
          takeInitialSnapshotIfNeeded c s = (None, s))
   \<and> (NextRequestID (disk s) = Inr 0 \<longrightarrow>
        takeInitialSnapshotIfNeeded c s = Server_takeSnapshot c 0 GraphQLRequest_zero s
        \<and> (\<forall>err. Snapshotter_TakeSnapshot c GraphQLRequest_zero = Inl err \<longrightarrow>
              fst (takeInitialSnapshotIfNeeded c s) = Some err
              \<and> disk (snd (takeInitialSnapshotIfNeeded c s)) = disk s)
        \<and> (\<forall>snapshot. Snapshotter_TakeSnapshot c GraphQLRequest_zero = Inr snapshot \<longrightarrow>
              fst (takeInitialSnapshotIfNeeded c s) = None
              \<and> disk (snd (takeInitialSnapshotIfNeeded c s))
                  = snd (SaveSnapshot 0 snapshot (disk s))
              \<and> (fst (SaveSnapshot 0 snapshot (disk s)) = None \<longrightarrow>
                    lookup_file (disk (snd (takeInitialSnapshotIfNeeded c s)))
                      ''request-000000'' ''snapshot.txt'' = Some snapshot)))
   \<and> (NextRequestID (disk s) = Inr 0 \<longleftrightarrow> GetAllRequestIDs (disk s) = Inr [])
   \<and> NextRequestID (disk s) \<noteq> Inr 1"
    using w NextRequestID_not_one [of "disk s"] NextRequestID_zero_iff [of "disk s"]
    by (auto simp: takeInitialSnapshotIfNeeded_def Server_takeSnapshot_def Let_def Report_def)
  have entries: "NextRequestID (disk s) = Inr 0 \<longleftrightarrow>
        \<not> readdir_fails (disk s)
        \<and> list_all (\<lambda>n. FindStringSubmatch n \<noteq> [] \<and> group_value n = 0)
             (map fst (entries (disk s)))"
    by (simp only: NextRequestID_zero_iff GetAllRequestIDs_empty_iff)
  show ?thesis
    by (insert run entries, (erule conjE)+, (rule conjI, assumption)+, assumption)
qed

theorem bootstrap_runs_when_next_is_zero_witness:
  "NextRequestID (disk handler_empty) = Inr 0
   \<and> GetAllRequestIDs (disk handler_empty) = Inr []
   \<and> Snapshotter_TakeSnapshot c_ok GraphQLRequest_zero = Inr ''snap''
   \<and> fst (SaveSnapshot 0 ''snap'' (disk handler_empty)) = None
   \<and> fst (takeInitialSnapshotIfNeeded c_ok handler_empty) = None
   \<and> lookup_file (disk (snd (takeInitialSnapshotIfNeeded c_ok handler_empty)))
        ''request-000000'' ''snapshot.txt'' = Some ''snap''
   \<and> NextRequestID (disk handler_two) = Inr 3
   \<and> takeInitialSnapshotIfNeeded c_ok handler_two = (None, handler_two)
   \<and> NextRequestID (disk (handler_two\<lparr>disk := store_notes\<rparr>))
        = Inl (Failure (''invalid request directory name '' @ [CHR 0x22] @ ''notes.txt'' @ [CHR 0x22]))
   \<and> fst (takeInitialSnapshotIfNeeded c_ok (handler_two\<lparr>disk := store_notes\<rparr>))
        = Some (Failure (''invalid request directory name '' @ [CHR 0x22] @ ''notes.txt'' @ [CHR 0x22]))
   \<and> list_all (\<lambda>n. FindStringSubmatch n \<noteq> [] \<and> group_value n = 0)
        (map fst (entries store_zero))
   \<and> lookup_file store_zero ''request-000000'' ''request.txt'' = Some ''Q''
   \<and> NextRequestID (disk (handler_empty\<lparr>disk := store_zero\<rparr>)) = Inr 0
   \<and> lookup_file (disk (snd (takeInitialSnapshotIfNeeded c_ok (handler_empty\<lparr>disk := store_zero\<rparr>))))
        ''request-000000'' ''snapshot.txt'' = Some ''snap''"
proof -
  have d: "disk handler_empty = directory []" "disk handler_two = store_two"
    by (simp_all add: handler_empty_def handler_two_def)
  have n0: "NextRequestID (disk handler_empty) = Inr 0"
    unfolding d by (rule NextRequestID_empty)
  have t: "Snapshotter_TakeSnapshot c_ok GraphQLRequest_zero = Inr ''snap''"
    by (simp add: c_ok_def)
  have w: "fst (SaveSnapshot 0 ''snap'' (disk handler_empty)) = None"
    unfolding d by code_simp
  have n3: "NextRequestID (disk handler_two) = Inr 3"
    unfolding d by (rule NextRequestID_store_two)
  have nn: "NextRequestID (disk (handler_two\<lparr>disk := store_notes\<rparr>))
        = Inl (Failure (''invalid request directory name '' @ [CHR 0x22] @ ''notes.txt'' @ [CHR 0x22]))"
    by (simp, code_simp)
  have z: "list_all (\<lambda>n. FindStringSubmatch n \<noteq> [] \<and> group_value n = 0)
        (map fst (entries store_zero))" by code_simp
  have zr: "\<not> readdir_fails store_zero" by (simp add: store_zero_def directory_def)
  have zq: "lookup_file store_zero ''request-000000'' ''request.txt'' = Some ''Q''" by code_simp
  have zw: "fst (SaveSnapshot 0 ''snap'' store_zero) = None" by code_simp
  note a = bootstrap_runs_when_next_is_zero [of handler_empty c_ok]
  note b = bootstrap_runs_when_next_is_zero [of handler_two c_ok]
  note c = bootstrap_runs_when_next_is_zero [of "handler_two\<lparr>disk := store_notes\<rparr>" c_ok]
  note e = bootstrap_runs_when_next_is_zero [of "handler_empty\<lparr>disk := store_zero\<rparr>" c_ok]
  have 1: "GetAllRequestIDs (disk handler_empty) = Inr []" using a n0 by blast
  have 2: "fst (takeInitialSnapshotIfNeeded c_ok handler_empty) = None" using a n0 t by blast
  have 3: "lookup_file (disk (snd (takeInitialSnapshotIfNeeded c_ok handler_empty)))
        ''request-000000'' ''snapshot.txt'' = Some ''snap''" using a n0 t w by blast
  have 4: "takeInitialSnapshotIfNeeded c_ok handler_two = (None, handler_two)"
    using b n3 by simp
  have 5: "fst (takeInitialSnapshotIfNeeded c_ok (handler_two\<lparr>disk := store_notes\<rparr>))
        = Some (Failure (''invalid request directory name '' @ [CHR 0x22] @ ''notes.txt'' @ [CHR 0x22]))"
    using c nn by simp
  have dz: "disk (handler_empty\<lparr>disk := store_zero\<rparr>) = store_zero" by simp
  have 6: "NextRequestID (disk (handler_empty\<lparr>disk := store_zero\<rparr>)) = Inr 0"
    using e [unfolded dz] z zr unfolding dz by blast
  have 7: "lookup_file (disk (snd (takeInitialSnapshotIfNeeded c_ok (handler_empty\<lparr>disk := store_zero\<rparr>))))
        ''request-000000'' ''snapshot.txt'' = Some ''snap''"
    using e [unfolded dz] 6 [unfolded dz] t zw unfolding dz by blast
  from n0 1 t w 2 3 n3 4 nn 5 z zq 6 7 show ?thesis by blast
qed

text \<open>
  The claim as it was stated skips the bootstrap whenever the next identifier is not 1, and
  runs it exactly when the store holds no record.  On the empty directory the next
  identifier is 0, and the bootstrap snapshot is taken.  And once the proxy has started on
  the empty directory and recorded one operation, the request of that record is in
  \<open>request-000000\<close>, the next identifier is 0 again, and a second start of the process
  takes the bootstrap snapshot again: the last component below is what that second start
  reports.
\<close>

theorem bootstrap_guard_counterexample:
  "NextRequestID (directory []) = Inr 0
   \<and> (0 :: int) \<noteq> 1
   \<and> lookup_file (directory []) ''request-000000'' ''snapshot.txt'' = None
   \<and> (case NewHandler c_ok ''127.0.0.1:7081'' ''http://127.0.0.1:8081'' (directory []) of
         Inl err \<Rightarrow> None
       | Inr s \<Rightarrow> lookup_file (disk (snd (takeInitialSnapshotIfNeeded c_ok s)))
                    ''request-000000'' ''snapshot.txt'') = Some ''snap''
   \<and> (case ListenAndServe c_ok (directory []) of
         Inl err \<Rightarrow> None
       | Inr s \<Rightarrow>
           Some (lookup_file (disk (exchange c_ok 1 graphql_path ''Q'' s))
                   ''request-000000'' ''request.txt'',
                 NextRequestID (disk (exchange c_ok 1 graphql_path ''Q'' s)),
                 case ListenAndServe c_ok (disk (exchange c_ok 1 graphql_path ''Q'' s)) of
                   Inl err \<Rightarrow> []
                 | Inr s' \<Rightarrow> reports s'))
       = Some (Some ''Q'', Inr 0,
               [(''warning'', ''existing requests in output dir, next request id: 0''),
                ('''', ''taking a snapshot, (snapshot description)...''),
                ('''', ''...done'')])"
  by code_simp

subsection \<open>C3: resolution of the prior snapshot\<close>




subsection \<open>C4: the entry of the correlation map\<close>

text \<open>
  Claim C4 has the entry of a request removed when its response is handled.
  \<open>ProxyDirector\<close> stores an entry for every request, and \<open>ProxyResponseHandler\<close>
  returns before the \<open>delete\<close> when the path does not contain \<open>/backend-graphql/\<close>: the
  entry of the request at address 7 is still in the map after its response was handled.
  With a path that contains the marker the entry is removed.  The list below is the entry
  of address 7 in a fresh handler, after \<open>ProxyDirector\<close>, after the whole exchange on
  \<open>/some/endpoint\<close>, and after a whole exchange on a path with the marker.
\<close>

theorem entry_kept_for_other_paths:
  "(case NewHandler c_ok ''127.0.0.1:7081'' ''http://127.0.0.1:8081'' store_two of
      Inl err \<Rightarrow> []
    | Inr s \<Rightarrow>
        [requestContent s 7,
         requestContent (snd (ProxyDirector 7 (request_with ''/some/endpoint'' ''body'') s)) 7,
         requestContent (exchange c_ok 7 ''/some/endpoint'' ''body'' s) 7,
         requestContent (exchange c_ok 7 graphql_path ''Q'' s) 7])
     = [None, Some ''body'', Some ''body'', None]"
  by code_simp

subsection \<open>C5: failures while recording\<close>

text \<open>
  Claim C5, as the code has it.  \<open>ProxyResponseHandler\<close> returns \<open>nil\<close> on every input.
  What it reports does not depend on the directory at all: the results of
  \<open>SaveRequest\<close>, \<open>SaveResponse\<close> and \<open>SaveSnapshot\<close> are dropped, so a failing write is
  never reported.  For an accepted operation whose response was read, the response handed
  back carries the bytes read as its body again; and when its snapshot is attempted and the
  snapshotter fails, the error is reported under the label \<open>error\<close>, after the record's
  own report and the announcement of the snapshot.
\<close>

theorem recording_failures_never_abort:
  "fst (ProxyResponseHandler c resp s) = None
   \<and> (\<forall>d. reports (snd (snd (ProxyResponseHandler c resp (s\<lparr>disk := d\<rparr>))))
            = reports (snd (snd (ProxyResponseHandler c resp s))))
   \<and> (sublist ''/backend-graphql/'' (RequestURLPath resp)
        \<and> requestContent s (RequestPtr resp) = Some content \<and> content \<noteq> []
        \<and> ParseRequest c content = Inr r
        \<and> ShouldRecordRequest c r
        \<and> readAndResetResponseContent c resp = (Inr responseContent, resp')
      \<longrightarrow> fst (snd (ProxyResponseHandler c resp s)) = resp'
          \<and> resp' = resp\<lparr>Body := Reader (case Body resp of Reader b \<Rightarrow> b | Consumed \<Rightarrow> [])\<rparr>
          \<and> (ShouldSnapshotRequest c r \<and> Snapshotter_TakeSnapshot c r = Inl err \<longrightarrow>
                reports (snd (snd (ProxyResponseHandler c resp s))) = reports s @
                  [(OperationType r, FormatRequestID (nextRequestID s) @ '' '' @ OperationName r),
                   ('''', ''taking a snapshot, '' @ SnapshotInfo c @ ''...''),
                   (''error'', Error err)]))"
proof (intro conjI allI impI)
  show "fst (ProxyResponseHandler c resp s) = None"
    by (rule ProxyResponseHandler_returns_nil)
next
  fix d
  show "reports (snd (snd (ProxyResponseHandler c resp (s\<lparr>disk := d\<rparr>))))
            = reports (snd (snd (ProxyResponseHandler c resp s)))"
    by (rule ProxyResponseHandler_reports_disk)
next
  assume a: "sublist ''/backend-graphql/'' (RequestURLPath resp)
        \<and> requestContent s (RequestPtr resp) = Some content \<and> content \<noteq> []
        \<and> ParseRequest c content = Inr r
        \<and> ShouldRecordRequest c r
        \<and> readAndResetResponseContent c resp = (Inr responseContent, resp')"
  then show "fst (snd (ProxyResponseHandler c resp s)) = resp'"
    using ProxyResponseHandler_accepted_response [of resp s content c r responseContent resp']
    by simp
  from a show "resp' = resp\<lparr>Body := Reader (case Body resp of Reader b \<Rightarrow> b | Consumed \<Rightarrow> [])\<rparr>"
    using readAndResetResponseContent_Inr by blast
  assume b: "ShouldSnapshotRequest c r \<and> Snapshotter_TakeSnapshot c r = Inl err"
  with a show "reports (snd (snd (ProxyResponseHandler c resp s))) = reports s @
                  [(OperationType r, FormatRequestID (nextRequestID s) @ '' '' @ OperationName r),
                   ('''', ''taking a snapshot, '' @ SnapshotInfo c @ ''...''),
                   (''error'', Error err)]"
    using ProxyResponseHandler_snapshot_fails [of resp s content c r responseContent resp' err]
    by simp
qed

theorem recording_failures_never_abort_witness:
  "fst (SaveRequest 3 ''M'' store_full) = Some (Failure ''write'')
   \<and> Snapshotter_TakeSnapshot c_failing
        \<lparr>OperationName = ''operationToRecord'', Variables = [],
         Query = ''mutation operationToRecord { someMutation }'', OperationType = ''mutation''\<rparr>
       = Inl (Failure ''export failed'')
   \<and> fst (ProxyResponseHandler c_failing (response_for 1 graphql_path)
            (snd (ProxyDirector 1 (request_with graphql_path ''M'') handler_full))) = None
   \<and> fst (snd (ProxyResponseHandler c_failing (response_for 1 graphql_path)
            (snd (ProxyDirector 1 (request_with graphql_path ''M'') handler_full))))
       = response_for 1 graphql_path
   \<and> reports (exchange c_failing 1 graphql_path ''M'' handler_full)
       = [(''warning'', ''existing requests in output dir, next request id: 3''),
          (''mutation'', ''000003 operationToRecord''),
          ('''', ''taking a snapshot, (snapshot description)...''),
          (''error'', ''export failed'')]
   \<and> reports (exchange c_failing 1 graphql_path ''M'' handler_two)
       = reports (exchange c_failing 1 graphql_path ''M'' handler_full)"
proof -
  define s where "s = snd (ProxyDirector 1 (request_with graphql_path ''M'') handler_full)"
  define r where "r = \<lparr>OperationName = ''operationToRecord'', Variables = [],
             Query = ''mutation operationToRecord { someMutation }'', OperationType = ''mutation''\<rparr>"
  define resp where "resp = response_for 1 graphql_path"
  have 1: "sublist ''/backend-graphql/'' (RequestURLPath resp)"
    unfolding resp_def by code_simp
  have 2: "requestContent s (RequestPtr resp) = Some ''M''"
    by (simp add: s_def resp_def ProxyDirector_def request_with_def response_for_def Let_def)
  have 4: "ParseRequest c_failing ''M'' = Inr r" unfolding r_def by (rule ParseRequest_M)
  have 5: "ShouldRecordRequest c_failing r" by (simp add: r_def c_failing_def c_ok_def)
  have 6: "readAndResetResponseContent c_failing resp = (Inr ''some content from the origin'', resp)"
    by (simp add: readAndResetResponseContent_def resp_def response_for_def Let_def)
  have 7: "ShouldSnapshotRequest c_failing r"
    by (simp add: r_def c_failing_def c_ok_def OperationTypeMutation_def)
  have 8: "Snapshotter_TakeSnapshot c_failing r = Inl (Failure ''export failed'')"
    by (simp add: c_failing_def)
  have w: "fst (SaveRequest 3 ''M'' store_full) = Some (Failure ''write'')" by code_simp
  have f: "FormatRequestID 3 = ''000003''" by code_simp
  have s0: "nextRequestID s = 3"
    "reports s = [(''warning'', ''existing requests in output dir, next request id: 3'')]"
    by (simp_all add: s_def ProxyDirector_def handler_two_def handler_full_def Let_def)
  have d: "snd (ProxyDirector 1 (request_with graphql_path ''M'') handler_two)
            = s\<lparr>disk := store_two\<rparr>"
    by (simp add: s_def ProxyDirector_def handler_two_def handler_full_def Let_def)
  note t = recording_failures_never_abort
    [of c_failing resp s "''M''" r "''some content from the origin''" resp "Failure ''export failed''"]
  have a: "fst (ProxyResponseHandler c_failing resp s) = None" using t by blast
  have b: "fst (snd (ProxyResponseHandler c_failing resp s)) = resp"
    using t 1 2 4 5 6 by simp
  have c: "reports (snd (snd (ProxyResponseHandler c_failing resp s))) = reports s @
                  [(OperationType r, FormatRequestID (nextRequestID s) @ '' '' @ OperationName r),
                   ('''', ''taking a snapshot, '' @ SnapshotInfo c_failing @ ''...''),
                   (''error'', Error (Failure ''export failed''))]"
    using t 1 2 4 5 6 7 8 by simp
  have e: "reports (snd (snd (ProxyResponseHandler c_failing resp (s\<lparr>disk := store_two\<rparr>))))
            = reports (snd (snd (ProxyResponseHandler c_failing resp s)))"
    using t by blast
  show ?thesis
    unfolding exchange_def d
    unfolding s_def [symmetric] resp_def [symmetric]
    using a b c e w 8 s0 f by (simp add: r_def c_failing_def c_ok_def)
qed

text \<open>
  The claim as it was stated has every failing write reported.  On \<open>store_full\<close> both
  writes of an accepted query fail, and the only report made is the record's own.
\<close>

theorem write_failure_not_reported_counterexample:
  "NextRequestID store_full = Inr 3
   \<and> fst (SaveRequest 3 ''Q'' store_full) = Some (Failure ''write'')
   \<and> fst (SaveResponse 3 ''some content from the origin'' (snd (SaveRequest 3 ''Q'' store_full)))
       = Some (Failure ''write'')
   \<and> (case NewHandler c_ok ''127.0.0.1:7081'' ''http://127.0.0.1:8081'' store_full of
         Inl err \<Rightarrow> []
       | Inr s \<Rightarrow> reports (exchange c_ok 1 graphql_path ''Q'' s))
       = [(''warning'', ''existing requests in output dir, next request id: 3''),
          (''query'', ''000003 operationToRecord'')]"
  by code_simp

subsection \<open>C6: the next identifier and the listing\<close>

text \<open>
  Claim C6, as the code has it.  When \<open>GetAllRequestIDs\<close> fails, \<open>NextRequestID\<close> fails
  with the same error.  Otherwise 0 is never among the identifiers listed,
  \<open>NextRequestID\<close> is 0 when the list is empty and the last identifier of the list plus one
  when it is not; and when every entry of the directory is named by the layout
  (\<open>request-\<close> and six digits), the list is strictly ascending, so that the last identifier
  is the greatest and \<open>NextRequestID\<close> is the maximum plus one.
\<close>

theorem NextRequestID_of_listing:
  "(case GetAllRequestIDs fs of
      Inl err \<Rightarrow> NextRequestID fs = Inl err
    | Inr ids \<Rightarrow>
        0 \<notin> set ids
        \<and> (ids = [] \<longrightarrow> NextRequestID fs = Inr 0)
        \<and> (ids \<noteq> [] \<longrightarrow> NextRequestID fs = Inr (last ids + 1))
        \<and> (list_all layout_name (map fst (entries fs)) \<longrightarrow>
             sorted_wrt (<) ids \<and> (ids \<noteq> [] \<longrightarrow> NextRequestID fs = Inr (Max (set ids) + 1))))"
proof (cases "GetAllRequestIDs fs")
  case (Inl err)
  then show ?thesis by (simp add: NextRequestID_def)
next
  case (Inr ids)
  have z: "0 \<notin> set ids" using GetAllRequestIDs_positive [OF Inr] by force
  have n: "NextRequestID fs = (if ids = [] then Inr 0 else Inr (last ids + 1))"
    by (rule NextRequestID_cases [OF Inr])
  have s: "sorted_wrt (<) ids" if "list_all layout_name (map fst (entries fs))"
    using layout_ids_sorted [OF Inr] that by (simp add: list_all_iff)
  have m: "NextRequestID fs = Inr (Max (set ids) + 1)"
    if "list_all layout_name (map fst (entries fs))" "ids \<noteq> []"
    using n that Max_strict_sorted [OF s] by simp
  show ?thesis using Inr z n s m by simp
qed

theorem NextRequestID_of_listing_witness:
  "GetAllRequestIDs store_two = Inr [1, 2]
   \<and> list_all layout_name (map fst (entries store_two))
   \<and> NextRequestID store_two = Inr 3
   \<and> sorted_wrt (<) [1, 2 :: int]"
proof -
  have ids: "GetAllRequestIDs store_two = Inr [1, 2]" by code_simp
  have lay: "list_all layout_name (map fst (entries store_two))" by code_simp
  from NextRequestID_of_listing [of store_two] ids lay show ?thesis by simp
qed

text \<open>
  The claim as it was stated holds of every directory.  The regular expression is not
  anchored, so the entry \<open>old-request-000005\<close> of \<open>store_renamed\<close> is listed as
  identifier 5, before identifier 1: the list is not ascending, and the next identifier is
  2 where the maximum plus one is 6.
\<close>

theorem NextRequestID_renamed_entry_counterexample:
  "GetAllRequestIDs store_renamed = Inr [5, 1] \<and> NextRequestID store_renamed = Inr 2"
  by code_simp

subsection \<open>C7: an operation that the selector rejects\<close>

text \<open>
  Claim C7.  When the parsed operation is rejected by \<open>ShouldRecordRequest\<close>, the handler
  returns \<open>nil\<close> and the response as it came, the counter is unchanged, nothing is sent on
  the channel, nothing is written to the directory and nothing is reported: the state is
  the one before, without the request's entry in the correlation map.
\<close>

theorem rejected_operation_changes_nothing:
  assumes "sublist ''/backend-graphql/'' (RequestURLPath resp)"
    and "requestContent s (RequestPtr resp) = Some content" and "content \<noteq> []"
    and "ParseRequest c content = Inr r"
    and "\<not> ShouldRecordRequest c r"
    and "ProxyResponseHandler c resp s = (result, resp', s')"
  shows "result = None \<and> resp' = resp
         \<and> nextRequestID s' = nextRequestID s
         \<and> requestInfoChan s' = requestInfoChan s
         \<and> disk s' = disk s
         \<and> reports s' = reports s
         \<and> s' = s\<lparr>requestContent := (requestContent s)(RequestPtr resp := None)\<rparr>"
  using ProxyResponseHandler_rejected [OF assms(1-5)] assms(6) by auto

theorem rejected_operation_changes_nothing_witness:
  "sublist ''/backend-graphql/'' (RequestURLPath (response_for 1 graphql_path))
   \<and> requestContent (snd (ProxyDirector 1 (request_with graphql_path ''S'') handler_two)) 1 = Some ''S''
   \<and> ParseRequest c_ok ''S''
        = Inr \<lparr>OperationName = ''someOperation'', Variables = [],
                Query = ''query someOperation { field }'', OperationType = ''query''\<rparr>
   \<and> \<not> ShouldRecordRequest c_ok
          \<lparr>OperationName = ''someOperation'', Variables = [],
           Query = ''query someOperation { field }'', OperationType = ''query''\<rparr>
   \<and> nextRequestID (exchange c_ok 1 graphql_path ''S'' handler_two) = 3
   \<and> requestInfoChan (exchange c_ok 1 graphql_path ''S'' handler_two) = []
   \<and> disk (exchange c_ok 1 graphql_path ''S'' handler_two) = store_two
   \<and> reports (exchange c_ok 1 graphql_path ''S'' handler_two) = reports handler_two"
proof -
  define s where "s = snd (ProxyDirector 1 (request_with graphql_path ''S'') handler_two)"
  define r where "r = \<lparr>OperationName = ''someOperation'', Variables = [],
                Query = ''query someOperation { field }'', OperationType = ''query''\<rparr>"
  have 1: "sublist ''/backend-graphql/'' (RequestURLPath (response_for 1 graphql_path))"
    by code_simp
  have 2: "requestContent s (RequestPtr (response_for 1 graphql_path)) = Some ''S''"
    by (simp add: s_def ProxyDirector_def request_with_def response_for_def Let_def)
  have 3: "''S'' \<noteq> []" by simp
  have 4: "ParseRequest c_ok ''S'' = Inr r" unfolding r_def by (rule ParseRequest_S)
  have 5: "\<not> ShouldRecordRequest c_ok r" unfolding r_def by (simp add: c_ok_def)
  obtain result resp' s' where
    run: "ProxyResponseHandler c_ok (response_for 1 graphql_path) s = (result, resp', s')"
    by (cases "ProxyResponseHandler c_ok (response_for 1 graphql_path) s") auto
  have s': "exchange c_ok 1 graphql_path ''S'' handler_two = s'"
    using run by (simp add: exchange_def s_def)
  have s0: "nextRequestID s = 3" "requestInfoChan s = []" "disk s = store_two"
    "reports s = reports handler_two"
    by (simp_all add: s_def ProxyDirector_def handler_two_def Let_def)
  from rejected_operation_changes_nothing [OF 1 2 3 4 5 run] 1 2 4 5 s0
  show ?thesis unfolding s' r_def s_def [symmetric]
    by (simp add: response_for_def)
qed

subsection \<open>C8: a snapshot capture that fails\<close>




subsection \<open>C9: the init state for a new viewer\<close>

text \<open>
  Claim C9, as the code has it.  \<open>getAllRequestInfo\<close> fails when \<open>GetAllRequestIDs\<close>
  fails, and when, for an identifier listed, the request cannot be read or parsed or the
  read of the snapshot fails; no init state is computed then.  Otherwise the init state has
  one entry for each element of the list of \<open>GetAllRequestIDs\<close>, in the order of the list,
  with the operation type and name parsed from the stored request, and with both flags
  true when the identifier has a snapshot file and both false when it has none.  The order
  is strictly ascending when every entry of the directory is named by the layout.
\<close>

theorem init_state_follows_listing:
  "(\<forall>err. GetAllRequestIDs fs = Inl err \<longrightarrow> getAllRequestInfo c fs = Inl err)
   \<and> (\<forall>ids. GetAllRequestIDs fs = Inr ids \<longrightarrow>
         (isl (getAllRequestInfo c fs) \<longleftrightarrow>
            (\<exists>i\<in>set ids. isl (GetRequest fs i)
               \<or> (\<exists>request. GetRequest fs i = Inr request \<and> isl (ParseRequest c request))
               \<or> isl (MaybeGetSnapshot fs i))))
   \<and> (\<forall>records. getAllRequestInfo c fs = Inr records \<longrightarrow>
         GetAllRequestIDs fs = Inr (map RequestID records)
         \<and> (\<forall>info\<in>set records.
              (\<exists>request r. GetRequest fs (RequestID info) = Inr request
                  \<and> ParseRequest c request = Inr r
                  \<and> InfoOperationType info = OperationType r
                  \<and> InfoOperationName info = OperationName r)
              \<and> (\<exists>snapshot. MaybeGetSnapshot fs (RequestID info) = Inr snapshot
                  \<and> WillSnapshot info = (snapshot \<noteq> None)
                  \<and> ShapshotComplete info = (snapshot \<noteq> None)))
         \<and> (list_all layout_name (map fst (entries fs)) \<longrightarrow>
               sorted_wrt (<) (map RequestID records)))"
proof (intro conjI allI impI)
  fix err assume "GetAllRequestIDs fs = Inl err"
  then show "getAllRequestInfo c fs = Inl err" by (simp add: getAllRequestInfo_def)
next
  fix ids assume "GetAllRequestIDs fs = Inr ids"
  then show "isl (getAllRequestInfo c fs) \<longleftrightarrow>
            (\<exists>i\<in>set ids. isl (GetRequest fs i)
               \<or> (\<exists>request. GetRequest fs i = Inr request \<and> isl (ParseRequest c request))
               \<or> isl (MaybeGetSnapshot fs i))"
    by (simp add: getAllRequestInfo_def getAllRequestInfo_loop_error_iff)
next
  fix records assume a: "getAllRequestInfo c fs = Inr records"
  then obtain ids where ids: "GetAllRequestIDs fs = Inr ids"
    and l: "getAllRequestInfo_loop c fs ids [] = Inr records"
    by (auto simp: getAllRequestInfo_def split: sum.splits)
  from getAllRequestInfo_loop_Inr [OF l]
  have m: "map RequestID records = ids"
    and p: "\<forall>info\<in>set records.
              (\<exists>request r. GetRequest fs (RequestID info) = Inr request
                  \<and> ParseRequest c request = Inr r
                  \<and> InfoOperationType info = OperationType r
                  \<and> InfoOperationName info = OperationName r)
              \<and> (\<exists>snapshot. MaybeGetSnapshot fs (RequestID info) = Inr snapshot
                  \<and> WillSnapshot info = (snapshot \<noteq> None)
                  \<and> ShapshotComplete info = (snapshot \<noteq> None))"
    by auto
  show "GetAllRequestIDs fs = Inr (map RequestID records)" using ids m by simp
  show "\<forall>info\<in>set records.
              (\<exists>request r. GetRequest fs (RequestID info) = Inr request
                  \<and> ParseRequest c request = Inr r
                  \<and> InfoOperationType info = OperationType r
                  \<and> InfoOperationName info = OperationName r)
              \<and> (\<exists>snapshot. MaybeGetSnapshot fs (RequestID info) = Inr snapshot
                  \<and> WillSnapshot info = (snapshot \<noteq> None)
                  \<and> ShapshotComplete info = (snapshot \<noteq> None))"
    by (rule p)
  assume "list_all layout_name (map fst (entries fs))"
  then show "sorted_wrt (<) (map RequestID records)"
    using layout_ids_sorted [OF ids] m by (simp add: list_all_iff)
qed

theorem init_state_follows_listing_witness:
  "getAllRequestInfo c_ok store_two
     = Inr [\<lparr>RequestID = 1, InfoOperationType = ''query'',
              InfoOperationName = ''operationToRecord'',
              WillSnapshot = False, ShapshotComplete = False\<rparr>,
            \<lparr>RequestID = 2, InfoOperationType = ''mutation'',
              InfoOperationName = ''operationToRecord'',
              WillSnapshot = True, ShapshotComplete = True\<rparr>]
   \<and> GetAllRequestIDs store_two = Inr [1, 2]
   \<and> MaybeGetSnapshot store_two 1 = Inr None
   \<and> MaybeGetSnapshot store_two 2 = Inr (Some ''s2'')
   \<and> list_all layout_name (map fst (entries store_two))
   \<and> sorted_wrt (<) [1, 2 :: int]
   \<and> GetAllRequestIDs store_partial = Inr [1]
   \<and> isl (GetRequest store_partial 1)
   \<and> isl (getAllRequestInfo c_ok store_partial)"
proof -
  define records where "records =
    [\<lparr>RequestID = 1, InfoOperationType = ''query'', InfoOperationName = ''operationToRecord'',
      WillSnapshot = False, ShapshotComplete = False\<rparr>,
     \<lparr>RequestID = 2, InfoOperationType = ''mutation'', InfoOperationName = ''operationToRecord'',
      WillSnapshot = True, ShapshotComplete = True\<rparr>]"
  have r: "getAllRequestInfo c_ok store_two = Inr records" unfolding records_def by code_simp
  have lay: "list_all layout_name (map fst (entries store_two))" by code_simp
  have m1: "MaybeGetSnapshot store_two 1 = Inr None" by code_simp
  have m2: "MaybeGetSnapshot store_two 2 = Inr (Some ''s2'')" by code_simp
  have p: "GetAllRequestIDs store_partial = Inr [1]" by code_simp
  have g: "isl (GetRequest store_partial 1)" by code_simp
  note t = init_state_follows_listing [of store_two c_ok]
  note u = init_state_follows_listing [of store_partial c_ok]
  have a: "GetAllRequestIDs store_two = Inr (map RequestID records)" using t r by blast
  have b: "sorted_wrt (<) (map RequestID records)" using t r lay by blast
  have "\<exists>i\<in>set [1]. isl (GetRequest store_partial i)
               \<or> (\<exists>request. GetRequest store_partial i = Inr request \<and> isl (ParseRequest c_ok request))
               \<or> isl (MaybeGetSnapshot store_partial i)"
    using g by simp
  with u p have c: "isl (getAllRequestInfo c_ok store_partial)" by blast
  from r a b c lay m1 m2 p g show ?thesis by (simp add: records_def)
qed

text \<open>
  The claim as it was stated has one entry per identifier, ascending, for every directory.
  In \<open>store_copied\<close> the copy \<open>old-request-000002\<close> is listed too, and first: the init
  state is computed and has the identifiers 2, 1, 2.
\<close>

theorem init_state_of_copied_directory_counterexample:
  "map RequestID (case getAllRequestInfo c_ok store_copied of Inl err \<Rightarrow> [] | Inr records \<Rightarrow> records)
     = [2, 1, 2]
   \<and> GetAllRequestIDs store_copied = Inr [2, 1, 2]"
  by code_simp

subsection \<open>C10: an entry that does not match\<close>

text \<open>
  Claim C10, as the code has it.  When the directory holds an entry in whose name
  \<open>request-\<close> followed by six decimal digits occurs nowhere, not even as a part of the
  name, \<open>GetAllRequestIDs\<close> returns an error instead of leaving the entry out, and with
  it \<open>NextRequestID\<close> and \<open>NewHandler\<close> fail.
\<close>

theorem stray_entry_is_an_error:
  assumes "(name, files) \<in> set (entries fs)"
    and "\<not> (\<exists>pre d post. name = pre @ ''request-'' @ d @ post \<and> length d = 6 \<and> list_all isdigit d)"
  shows "isl (GetAllRequestIDs fs) \<and> isl (NextRequestID fs) \<and> isl (NewHandler c host' endpoint fs)"
proof -
  from assms(2) have "FindStringSubmatch name = []" using FindStringSubmatch_iff [of name] by blast
  moreover from assms(1) have "name \<in> set (listing fs)" by (force simp: set_listing)
  ultimately have "\<exists>n\<in>set (listing fs). FindStringSubmatch n = []" by blast
  from GetAllRequestIDs_loop_bad [OF this, of "[]"]
  have g: "isl (GetAllRequestIDs fs)" by (auto simp: GetAllRequestIDs_cases)
  then obtain err where e: "GetAllRequestIDs fs = Inl err" by (cases "GetAllRequestIDs fs") auto
  then have n: "NextRequestID fs = Inl err" by (simp add: NextRequestID_def)
  then have "isl (NewHandler c host' endpoint fs)"
    by (simp add: NewHandler_def split: sum.splits)
  with g n show ?thesis by simp
qed

theorem stray_entry_is_an_error_witness:
  "(''notes.txt'', []) \<in> set (entries store_notes)
   \<and> FindStringSubmatch ''notes.txt'' = []
   \<and> isl (GetAllRequestIDs store_notes) \<and> isl (NextRequestID store_notes)
   \<and> isl (NewHandler c_ok ''127.0.0.1:7081'' ''http://127.0.0.1:8081'' store_notes)"
proof -
  have m: "(''notes.txt'', []) \<in> set (entries store_notes)"
    by (simp add: store_notes_def directory_def)
  have f: "FindStringSubmatch ''notes.txt'' = []" by code_simp
  then have "\<not> (\<exists>pre d post. ''notes.txt'' = pre @ ''request-'' @ d @ post \<and> length d = 6
                \<and> list_all isdigit d)"
    using FindStringSubmatch_iff [of "''notes.txt''"] by simp
  from stray_entry_is_an_error [OF m this] f m show ?thesis by simp
qed

text \<open>
  The claim as it was stated has an error for every entry whose name is not \<open>request-\<close>
  followed by six digits.  The name \<open>old-request-000005\<close> is not of that form, and the
  regular expression, which is not anchored, finds a match in it: \<open>store_renamed\<close> is
  listed without an error, the next identifier is computed and the handler is built.
\<close>

theorem renamed_entry_is_accepted_counterexample:
  "map fst (entries store_renamed) = [''request-000001'', ''old-request-000005'']
   \<and> \<not> layout_name ''old-request-000005''
   \<and> GetAllRequestIDs store_renamed = Inr [5, 1]
   \<and> NextRequestID store_renamed = Inr 2
   \<and> \<not> isl (NewHandler c_ok ''127.0.0.1:7081'' ''http://127.0.0.1:8081'' store_renamed)"
  by code_simp

end
